theory Spec2Isabelle
  imports Main
begin

section \<open>Line-annotated document nodes\<close>

text \<open>
  Modelled from the spec: the node tree that \<^verbatim>\<open>benten/models/workflow.py\<close> consumes is
  produced by \<^verbatim>\<open>benten.editing.listormap\<close> and \<^verbatim>\<open>benten.editing.cwldoc\<close>, which are not
  part of the sources. A node is a mapping (ordered, key to node) or a sequence, each
  carrying the first and the last line it occupies, or a scalar (string, number, boolean
  or null).
\<close>

datatype scalar = Str string | Num int | Bool bool | Null

datatype node =
    Scalar scalar
  | CWLMap "(string \<times> node) list" nat nat
  | CWLList "node list" nat nat

text \<open>
  Python exceptions. \<open>WFConnectionError\<close> is the class declared in the module; the others
  are the built-in exceptions the dynamically typed operations raise.
\<close>

datatype error =
    WFConnectionError string
  | AttributeError
  | TypeError
  | ValueError
  | KeyError
  | OtherError

definition and_then :: "error + 'a \<Rightarrow> ('a \<Rightarrow> error + 'b) \<Rightarrow> error + 'b" where
  "and_then m f = (case m of Inl e \<Rightarrow> Inl e | Inr x \<Rightarrow> f x)"

subsection \<open>Python strings\<close>

fun starts_with :: "string \<Rightarrow> string \<Rightarrow> bool" where
  "starts_with [] s = True"
| "starts_with (k # ks) [] = False"
| "starts_with (k # ks) (c # cs) = (k = c \<and> starts_with ks cs)"

text \<open>\<^verbatim>\<open>k in s\<close> for two strings: \<open>k\<close> occurs in \<open>s\<close> as a contiguous run.\<close>

fun str_contains :: "string \<Rightarrow> string \<Rightarrow> bool" where
  "str_contains k [] = (k = [])"
| "str_contains k (c # cs) = (starts_with k (c # cs) \<or> str_contains k cs)"

text \<open>\<^verbatim>\<open>s.split(sep)\<close> for a one-character separator.\<close>

fun split_on :: "char \<Rightarrow> string \<Rightarrow> string list" where
  "split_on sep [] = [[]]"
| "split_on sep (c # cs) =
     (if c = sep then [] # split_on sep cs
      else (case split_on sep cs of [] \<Rightarrow> [[c]] | p # ps \<Rightarrow> (c # p) # ps))"

fun join_str :: "string \<Rightarrow> string list \<Rightarrow> string" where
  "join_str sep [] = []"
| "join_str sep [x] = x"
| "join_str sep (x # y # r) = x @ sep @ join_str sep (y # r)"

definition hex_digit :: "nat \<Rightarrow> char" where
  "hex_digit n = ''0123456789abcdef'' ! (n mod 16)"

text \<open>
  \<^verbatim>\<open>repr\<close> of a string. A character of a model string is a code point below 256. The
  string is put in single quotes, unless it holds a single quote and no double quote;
  backslash and the chosen quote are escaped, newline, carriage return and tab print as
  \<^verbatim>\<open>\n\<close>, \<^verbatim>\<open>\r\<close> and \<^verbatim>\<open>\t\<close>, and every other code point that Python does not count
  as printable prints as \<^verbatim>\<open>\xNN\<close> with two lower-case hexadecimal digits. Below 256 the
  code points that are not printable are the controls 0 to 31 and 127 to 159, the
  no-break space 160 and the soft hyphen 173.
\<close>

definition repr_char :: "char \<Rightarrow> char \<Rightarrow> string" where
  "repr_char q c =
     (if c = CHR 0x5C then [CHR 0x5C, CHR 0x5C]
      else if c = q then [CHR 0x5C, q]
      else if c = CHR 0x0A then [CHR 0x5C, CHR ''n'']
      else if c = CHR 0x0D then [CHR 0x5C, CHR ''r'']
      else if c = CHR 0x09 then [CHR 0x5C, CHR ''t'']
      else if (of_char c :: nat) < 32 \<or> (127 \<le> (of_char c :: nat) \<and> (of_char c :: nat) \<le> 160)
              \<or> (of_char c :: nat) = 173
        then [CHR 0x5C, CHR ''x'', hex_digit (of_char c div 16), hex_digit (of_char c)]
      else [c])"

definition str_repr :: "string \<Rightarrow> string" where
  "str_repr s =
     (let q = (if CHR 0x27 \<in> set s \<and> CHR 0x22 \<notin> set s then CHR 0x22 else CHR 0x27)
      in [q] @ concat (map (repr_char q) s) @ [q])"

subsection \<open>Operations on nodes\<close>

text \<open>
  Modelled from the spec: the classes \<^verbatim>\<open>CWLMap\<close> and \<^verbatim>\<open>CWLList\<close> of
  \<^verbatim>\<open>benten.editing.listormap\<close> are not part of the sources. A mapping is an ordered
  key-to-node table with \<^verbatim>\<open>start_line\<close> and \<^verbatim>\<open>end_line\<close>; a sequence holds its
  elements in \<^verbatim>\<open>obj\<close> and the same two lines; both are read through one accessor that
  yields ordered key-value pairs, a sequence taking each key from the \<^verbatim>\<open>id\<close> field of its
  element. A scalar is the plain Python value and carries no lines. Identifiers are
  strings: an \<^verbatim>\<open>id\<close> that is not a string is reported as \<open>TypeError\<close>.
\<close>

fun lom_id :: "node \<Rightarrow> error + string" where
  "lom_id (CWLMap m s e) =
     (case map_of m ''id'' of
        None \<Rightarrow> Inl KeyError
      | Some (Scalar (Str k)) \<Rightarrow> Inr k
      | Some _ \<Rightarrow> Inl TypeError)"
| "lom_id (CWLList xs s e) = Inl TypeError"
| "lom_id (Scalar v) = Inl TypeError"

fun lom_pairs :: "node list \<Rightarrow> error + (string \<times> node) list" where
  "lom_pairs [] = Inr []"
| "lom_pairs (l # ls) =
     (case lom_id l of
        Inl err \<Rightarrow> Inl err
      | Inr k \<Rightarrow> (case lom_pairs ls of Inl err \<Rightarrow> Inl err | Inr ps \<Rightarrow> Inr ((k, l) # ps)))"

text \<open>
  Modelled from the spec: \<^verbatim>\<open>for k, v in obj\<close> on a node yields its ordered key-value
  pairs. Iterating a Python string yields its characters, and unpacking
  one character into two names raises \<open>ValueError\<close>; numbers, booleans and \<^verbatim>\<open>None\<close> are
  not iterable.
\<close>

fun iter_pairs :: "node \<Rightarrow> error + (string \<times> node) list" where
  "iter_pairs (CWLMap m s e) = Inr m"
| "iter_pairs (CWLList xs s e) = lom_pairs xs"
| "iter_pairs (Scalar (Str t)) = (if t = [] then Inr [] else Inl ValueError)"
| "iter_pairs (Scalar v) = Inl TypeError"

text \<open>
  Modelled from the spec: \<^verbatim>\<open>key in obj\<close> is key membership for a node. For a Python
  string it is the substring test; other scalars raise \<open>TypeError\<close>.
\<close>

fun py_in :: "string \<Rightarrow> node \<Rightarrow> error + bool" where
  "py_in k (CWLMap m s e) = Inr (k \<in> set (map fst m))"
| "py_in k (CWLList xs s e) =
     (case lom_pairs xs of Inl err \<Rightarrow> Inl err | Inr ps \<Rightarrow> Inr (k \<in> set (map fst ps)))"
| "py_in k (Scalar (Str t)) = Inr (str_contains k t)"
| "py_in k (Scalar v) = Inl TypeError"

text \<open>
  Modelled from the spec: \<^verbatim>\<open>obj[key]\<close> on a node is the value stored under the key, or
  \<open>KeyError\<close>. A scalar cannot be indexed by a string.
\<close>

fun py_getitem :: "node \<Rightarrow> string \<Rightarrow> error + node" where
  "py_getitem (CWLMap m s e) k = (case map_of m k of None \<Rightarrow> Inl KeyError | Some v \<Rightarrow> Inr v)"
| "py_getitem (CWLList xs s e) k =
     (case lom_pairs xs of
        Inl err \<Rightarrow> Inl err
      | Inr ps \<Rightarrow> (case map_of ps k of None \<Rightarrow> Inl KeyError | Some v \<Rightarrow> Inr v))"
| "py_getitem (Scalar v) k = Inl TypeError"

text \<open>
  Modelled from the spec: \<^verbatim>\<open>obj.get(key, {})\<close> on a node. The result \<open>None\<close> stands for
  the default, the empty Python dictionary \<^verbatim>\<open>{}\<close>. A scalar has no \<^verbatim>\<open>get\<close>.
\<close>

fun py_get :: "node \<Rightarrow> string \<Rightarrow> error + node option" where
  "py_get (CWLMap m s e) k = Inr (map_of m k)"
| "py_get (CWLList xs s e) k =
     (case lom_pairs xs of Inl err \<Rightarrow> Inl err | Inr ps \<Rightarrow> Inr (map_of ps k))"
| "py_get (Scalar v) k = Inl AttributeError"

text \<open>
  Modelled from the spec: \<^verbatim>\<open>(v.start_line, v.end_line)\<close>; mappings and sequences carry
  the two lines, a scalar has no such attribute.
\<close>

fun line_span :: "node \<Rightarrow> error + (nat \<times> nat)" where
  "line_span (CWLMap m s e) = Inr (s, e)"
| "line_span (CWLList xs s e) = Inr (s, e)"
| "line_span (Scalar v) = Inl AttributeError"

text \<open>
  \<^verbatim>\<open>for k, v in d.get(key, {})\<close>: the argument is the result of \<open>py_get\<close>; iterating the
  empty dictionary yields nothing.
\<close>

fun iter_kv :: "node option \<Rightarrow> error + (string \<times> node) list" where
  "iter_kv None = Inr []"
| "iter_kv (Some obj) = iter_pairs obj"

text \<open>
  \<^verbatim>\<open>iter_lom\<close>: the empty dictionary takes the \<^verbatim>\<open>dict\<close> branch and has no items; a node
  is neither a Python list nor a Python dictionary and is iterated as pairs.
\<close>

fun iter_lom :: "node option \<Rightarrow> error + (string \<times> node) list" where
  "iter_lom None = Inr []"
| "iter_lom (Some obj) = iter_pairs obj"

fun iter_scalar_or_list :: "node \<Rightarrow> node list" where
  "iter_scalar_or_list (CWLList xs s e) = xs"
| "iter_scalar_or_list obj = [obj]"

section \<open>Python dictionaries\<close>

text \<open>
  A step keeps its ports either in a plain dictionary (the literal \<^verbatim>\<open>{}\<close>) or in an
  \<^verbatim>\<open>OrderedDict\<close>; the two differ in how their key view prints.
\<close>

datatype 'a pydict = Dict "(string \<times> 'a) list" | OrderedDict "(string \<times> 'a) list"

fun items :: "'a pydict \<Rightarrow> (string \<times> 'a) list" where
  "items (Dict kvs) = kvs"
| "items (OrderedDict kvs) = kvs"

text \<open>Storing under a key that is present replaces the value and keeps the position.\<close>

fun od_set :: "(string \<times> 'a) list \<Rightarrow> string \<Rightarrow> 'a \<Rightarrow> (string \<times> 'a) list" where
  "od_set [] k v = [(k, v)]"
| "od_set ((k', v') # d) k v =
     (if k' = k then (k, v) # d else (k', v') # od_set d k v)"

definition od_of :: "(string \<times> 'a) list \<Rightarrow> 'a pydict" where
  "od_of kvs = OrderedDict (fold (\<lambda>(k, v) d. od_set d k v) kvs [])"

definition dict_get :: "'a pydict \<Rightarrow> string \<Rightarrow> 'a option" where
  "dict_get d k = map_of (items d) k"

definition dict_getitem :: "'a pydict \<Rightarrow> string \<Rightarrow> error + 'a" where
  "dict_getitem d k = (case dict_get d k of None \<Rightarrow> Inl KeyError | Some v \<Rightarrow> Inr v)"

text \<open>\<^verbatim>\<open>str(d.keys())\<close>.\<close>

fun keys_str :: "'a pydict \<Rightarrow> string" where
  "keys_str (Dict kvs) = ''dict_keys(['' @ join_str '', '' (map (str_repr \<circ> fst) kvs) @ ''])''"
| "keys_str (OrderedDict kvs) =
     ''odict_keys(['' @ join_str '', '' (map (str_repr \<circ> fst) kvs) @ ''])''"

section \<open>Ports, steps, connections\<close>

record Port =
  node_id :: "string option"
  port_id :: string
  line_Port :: "(nat \<times> nat) option"

text \<open>\<^verbatim>\<open>Port.__eq__\<close>\<close>

definition Port_eq :: "Port \<Rightarrow> Port \<Rightarrow> bool" where
  "Port_eq self other = (node_id self = node_id other \<and> port_id self = port_id other)"

record Step =
  line_Step :: "nat \<times> nat"
  id_Step :: string
  available_sinks :: "Port pydict"
  available_sources :: "Port pydict"

text \<open>\<^verbatim>\<open>Step.__repr__\<close>\<close>

definition Step_repr :: "Step \<Rightarrow> string" where
  "Step_repr self =
     keys_str (available_sinks self) @ ''->'' @ id_Step self @ ''->''
       @ keys_str (available_sources self)"

record Connection =
  line_Connection :: "(nat \<times> nat) option"
  src :: Port
  dst :: Port

text \<open>\<^verbatim>\<open>Connection.__eq__\<close>\<close>

definition Connection_eq :: "Connection \<Rightarrow> Connection \<Rightarrow> bool" where
  "Connection_eq self other = (Port_eq (src self) (src other) \<and> Port_eq (dst self) (dst other))"

section \<open>The file system\<close>

text \<open>
  \<^verbatim>\<open>Step.from_doc\<close> resolves a \<^verbatim>\<open>run\<close> path against the parent directory of the
  document and reads and parses the file. Both depend on the disk and on
  \<^verbatim>\<open>parse_cwl_to_dict\<close>, which is not part of the sources, so they are parameters:
  \<open>as_uri root run\<close> is \<^verbatim>\<open>pathlib.Path(root.parent, run).resolve().as_uri()\<close>, and
  \<open>read_cwl root run\<close> is the outcome of opening, reading and parsing that file.
\<close>

datatype file_result = FileNotFoundError | Failed error | Parsed node

record world =
  as_uri :: "string \<Rightarrow> string \<Rightarrow> string"
  read_cwl :: "string \<Rightarrow> string \<Rightarrow> file_result"

section \<open>Building a step\<close>

definition interface_ports :: "string \<Rightarrow> (string \<times> node) list \<Rightarrow> Port pydict" where
  "interface_ports step_id kvs =
     od_of (map (\<lambda>(k, v). (k, \<lparr>node_id = Some step_id, port_id = k, line_Port = None\<rparr>)) kvs)"

text \<open>
  \<^verbatim>\<open>sub_process.get(key, {})\<close>, where \<open>None\<close> as the sub-process is the empty dictionary
  assigned after \<^verbatim>\<open>FileNotFoundError\<close>.
\<close>

fun sub_get :: "node option \<Rightarrow> string \<Rightarrow> error + node option" where
  "sub_get None k = Inr None"
| "sub_get (Some obj) k = py_get obj k"

text \<open>
  The branch \<^verbatim>\<open>isinstance(step_doc["run"], str)\<close> of \<^verbatim>\<open>Step.from_doc\<close>: the sub-process
  and the error list after it.
\<close>

definition load_sub_process ::
  "world \<Rightarrow> string \<Rightarrow> node \<Rightarrow> string list \<Rightarrow> error + (node option \<times> string list)" where
  "load_sub_process w root run wf_error_list =
     (case run of
        Scalar (Str r) \<Rightarrow>
          (case read_cwl w root r of
             Parsed sub_process \<Rightarrow> Inr (Some sub_process, wf_error_list)
           | FileNotFoundError \<Rightarrow>
               Inr (None, wf_error_list @
                 [''Could not find sub workflow: '' @ r @ '' (resolved to '' @ as_uri w root r @ '')''])
           | Failed err \<Rightarrow> Inl err)
      | _ \<Rightarrow> Inr (Some run, wf_error_list))"

definition from_doc ::
  "world \<Rightarrow> string \<Rightarrow> nat \<times> nat \<Rightarrow> node \<Rightarrow> string \<Rightarrow> string list \<Rightarrow> error + (Step \<times> string list)" where
  "from_doc w step_id ln step_doc root wf_error_list =
     (let no_ports = \<lparr>line_Step = ln, id_Step = step_id,
                       available_sinks = Dict [], available_sources = Dict []\<rparr>
      in if step_doc = Scalar Null then Inr (no_ports, wf_error_list)
         else and_then (py_in ''run'' step_doc) (\<lambda>has_run.
           if \<not> has_run then Inr (no_ports, wf_error_list)
           else and_then (py_getitem step_doc ''run'') (\<lambda>run.
             and_then (load_sub_process w root run wf_error_list) (\<lambda>(sub_process, errs).
             and_then (and_then (sub_get sub_process ''inputs'') iter_lom) (\<lambda>ins.
             and_then (and_then (sub_get sub_process ''outputs'') iter_lom) (\<lambda>outs.
               Inr (\<lparr>line_Step = ln, id_Step = step_id,
                     available_sinks = interface_ports step_id ins,
                     available_sources = interface_ports step_id outs\<rparr>, errs)))))))"

section \<open>The workflow\<close>

text \<open>
  Modelled from the spec: the class \<^verbatim>\<open>CwlDoc\<close> of \<^verbatim>\<open>benten.editing.cwldoc\<close> is not part of
  the sources; the constructor reads its attributes \<^verbatim>\<open>cwl_dict\<close> (the root node) and
  \<^verbatim>\<open>path\<close> (the path of the document).
\<close>

record CwlDoc =
  cwl_dict :: node
  path :: string

record Workflow =
  cwl_doc :: CwlDoc
  problems_with_wf :: "string list"
  inputs :: "Port pydict"
  outputs :: "Port pydict"
  steps :: "Step pydict"
  connections :: "Connection list"

definition required_sections :: "string list" where
  "required_sections = [''cwlVersion'', ''class'', ''inputs'', ''outputs'', ''steps'']"

definition missing_msg :: "string \<Rightarrow> string" where
  "missing_msg sec = [CHR 0x27] @ sec @ [CHR 0x27] @ '' missing''"

fun check_required :: "node \<Rightarrow> string list \<Rightarrow> string list \<Rightarrow> error + string list" where
  "check_required cwl [] problems = Inr problems"
| "check_required cwl (sec # secs) problems =
     (case py_in sec cwl of
        Inl err \<Rightarrow> Inl err
      | Inr present \<Rightarrow>
          check_required cwl secs (if present then problems else problems @ [missing_msg sec]))"

text \<open>The comprehension building \<^verbatim>\<open>inputs\<close> and \<^verbatim>\<open>outputs\<close>.\<close>

fun wf_ports :: "(string \<times> node) list \<Rightarrow> error + (string \<times> Port) list" where
  "wf_ports [] = Inr []"
| "wf_ports ((k, v) # rest) =
     (case line_span v of
        Inl err \<Rightarrow> Inl err
      | Inr ln \<Rightarrow>
          (case wf_ports rest of
             Inl err \<Rightarrow> Inl err
           | Inr ps \<Rightarrow> Inr ((k, \<lparr>node_id = None, port_id = k, line_Port = Some ln\<rparr>) # ps)))"

text \<open>The generator building \<^verbatim>\<open>steps\<close>; the error list is threaded through the calls.\<close>

fun wf_steps ::
  "world \<Rightarrow> string \<Rightarrow> (string \<times> node) list \<Rightarrow> string list
     \<Rightarrow> error + ((string \<times> Step) list \<times> string list)" where
  "wf_steps w root [] problems = Inr ([], problems)"
| "wf_steps w root ((k, v) # rest) problems =
     (case line_span v of
        Inl err \<Rightarrow> Inl err
      | Inr ln \<Rightarrow>
          (case from_doc w k ln v root problems of
             Inl err \<Rightarrow> Inl err
           | Inr (st, problems') \<Rightarrow>
               (case wf_steps w root rest problems' of
                  Inl err \<Rightarrow> Inl err
                | Inr (sts, problems'') \<Rightarrow> Inr ((k, st) # sts, problems''))))"

subsection \<open>Resolving a source reference\<close>

definition get_step_source :: "Workflow \<Rightarrow> string \<Rightarrow> error + Port" where
  "get_step_source self src_ref =
     (case split_on CHR ''/'' src_ref of
        [src_step_id, src_port_id] \<Rightarrow>
          (case dict_get (steps self) src_step_id of
             None \<Rightarrow> Inl (WFConnectionError (''No such source step '' @ src_step_id))
           | Some st \<Rightarrow>
               (case dict_get (available_sources st) src_port_id of
                  None \<Rightarrow> Inl (WFConnectionError
                            (''No such source port '' @ src_step_id @ ''.'' @ src_port_id))
                | Some p \<Rightarrow> Inr p))
      | _ \<Rightarrow> Inl ValueError)"

text \<open>
  \<^verbatim>\<open>_get_source\<close>. A number or a boolean fails at \<^verbatim>\<open>"/" in _src\<close> with \<open>TypeError\<close>;
  a reference that is itself a mapping or a sequence is outside what the parser's classes
  are known to do and is reported the same way.
\<close>

definition get_source :: "Workflow \<Rightarrow> node \<Rightarrow> error + Port" where
  "get_source self src_ref =
     (case src_ref of
        Scalar Null \<Rightarrow> Inl (WFConnectionError ''No source specified'')
      | Scalar (Str s) \<Rightarrow>
          if s = [] then Inl (WFConnectionError ''No source specified'')
          else if str_contains ''/'' s then get_step_source self s
          else (case dict_get (inputs self) s of
                  None \<Rightarrow> Inl (WFConnectionError (''No such WF input '' @ s))
                | Some p \<Rightarrow> Inr p)
      | _ \<Rightarrow> Inl TypeError)"

subsection \<open>Listing the connections\<close>

text \<open>
  The loop over the references of one sink. \<open>label\<close> is what the diagnostic prints before
  the colon. The state is the list of connections and the list of problems.
\<close>

fun connect_sources ::
  "Workflow \<Rightarrow> Port \<Rightarrow> string \<Rightarrow> node list \<Rightarrow> Connection list \<times> string list
     \<Rightarrow> error + (Connection list \<times> string list)" where
  "connect_sources self sink label [] acc = Inr acc"
| "connect_sources self sink label (src_ref # rest) (conns, problems) =
     (case get_source self src_ref of
        Inr source \<Rightarrow>
          connect_sources self sink label rest
            (conns @ [\<lparr>line_Connection = line_Port source, src = source, dst = sink\<rparr>], problems)
      | Inl (WFConnectionError e) \<Rightarrow>
          connect_sources self sink label rest (conns, problems @ [label @ '': '' @ e])
      | Inl err \<Rightarrow> Inl err)"

text \<open>The loop over the bindings under \<^verbatim>\<open>in\<close> of one step.\<close>

fun connect_sinks ::
  "Workflow \<Rightarrow> Step \<Rightarrow> (string \<times> node) list \<Rightarrow> Connection list \<times> string list
     \<Rightarrow> error + (Connection list \<times> string list)" where
  "connect_sinks self this_step [] acc = Inr acc"
| "connect_sinks self this_step ((step_sink_id, port_doc) # rest) (conns, problems) =
     (case dict_get (available_sinks this_step) step_sink_id of
        None \<Rightarrow>
          connect_sinks self this_step rest
            (conns, problems @ [''No such sink: '' @ id_Step this_step @ ''.'' @ step_sink_id])
      | Some sink \<Rightarrow>
          (case py_in ''source'' port_doc of
             Inl err \<Rightarrow> Inl err
           | Inr has_source \<Rightarrow>
               if \<not> has_source then connect_sinks self this_step rest (conns, problems)
               else (case py_getitem port_doc ''source'' of
                       Inl err \<Rightarrow> Inl err
                     | Inr v \<Rightarrow>
                         (case connect_sources self sink
                                 (Step_repr this_step @ ''.'' @ step_sink_id)
                                 (iter_scalar_or_list v) (conns, problems) of
                            Inl err \<Rightarrow> Inl err
                          | Inr acc' \<Rightarrow> connect_sinks self this_step rest acc'))))"

text \<open>The loop over the steps: connections into steps.\<close>

fun connect_steps ::
  "Workflow \<Rightarrow> (string \<times> node) list \<Rightarrow> Connection list \<times> string list
     \<Rightarrow> error + (Connection list \<times> string list)" where
  "connect_steps self [] acc = Inr acc"
| "connect_steps self ((step_id, step_doc) # rest) (conns, problems) =
     (case step_doc of
        CWLMap m s e \<Rightarrow>
          (case dict_getitem (steps self) step_id of
             Inl err \<Rightarrow> Inl err
           | Inr this_step \<Rightarrow>
               (case and_then (py_get step_doc ''in'') iter_kv of
                  Inl err \<Rightarrow> Inl err
                | Inr bindings \<Rightarrow>
                    (case connect_sinks self this_step bindings (conns, problems) of
                       Inl err \<Rightarrow> Inl err
                     | Inr acc' \<Rightarrow> connect_steps self rest acc')))
      | _ \<Rightarrow> connect_steps self rest (conns, problems @ [''Invalid step: '' @ step_id]))"

text \<open>The loop over the workflow outputs: connections to workflow outputs.\<close>

fun connect_outputs ::
  "Workflow \<Rightarrow> (string \<times> node) list \<Rightarrow> Connection list \<times> string list
     \<Rightarrow> error + (Connection list \<times> string list)" where
  "connect_outputs self [] acc = Inr acc"
| "connect_outputs self ((out_id, out_doc) # rest) (conns, problems) =
     (case dict_getitem (outputs self) out_id of
        Inl err \<Rightarrow> Inl err
      | Inr sink \<Rightarrow>
          (case py_in ''outputSource'' out_doc of
             Inl err \<Rightarrow> Inl err
           | Inr has_source \<Rightarrow>
               if \<not> has_source then connect_outputs self rest (conns, problems)
               else (case py_getitem out_doc ''outputSource'' of
                       Inl err \<Rightarrow> Inl err
                     | Inr v \<Rightarrow>
                         (case connect_sources self sink (port_id sink)
                                 (iter_scalar_or_list v) (conns, problems) of
                            Inl err \<Rightarrow> Inl err
                          | Inr acc' \<Rightarrow> connect_outputs self rest acc'))))"

text \<open>
  \<^verbatim>\<open>_list_connections\<close>: the connections found and the problem list after the two passes.
\<close>

definition list_connections :: "Workflow \<Rightarrow> error + (Connection list \<times> string list)" where
  "list_connections self =
     (let cwl = cwl_dict (cwl_doc self) in
      and_then (and_then (py_get cwl ''steps'') iter_kv) (\<lambda>step_docs.
      and_then (connect_steps self step_docs ([], problems_with_wf self)) (\<lambda>acc.
      and_then (and_then (py_get cwl ''outputs'') iter_kv) (\<lambda>out_docs.
        connect_outputs self out_docs acc))))"

text \<open>
  \<^verbatim>\<open>Workflow.__init__\<close>. The document object is taken as given (a \<^verbatim>\<open>CwlDoc\<close> is never
  false, so \<^verbatim>\<open>cwl_doc or {}\<close> is the document).
\<close>

definition Workflow_init :: "world \<Rightarrow> CwlDoc \<Rightarrow> error + Workflow" where
  "Workflow_init w doc =
     (let cwl = cwl_dict doc in
      and_then (check_required cwl required_sections []) (\<lambda>problems.
      and_then (and_then (and_then (py_get cwl ''inputs'') iter_kv) wf_ports) (\<lambda>ins.
      and_then (and_then (and_then (py_get cwl ''outputs'') iter_kv) wf_ports) (\<lambda>outs.
      and_then (and_then (py_get cwl ''steps'') iter_kv) (\<lambda>step_docs.
      and_then (wf_steps w (path doc) step_docs problems) (\<lambda>(sts, problems').
        let self = \<lparr>cwl_doc = doc, problems_with_wf = problems',
                    inputs = od_of ins, outputs = od_of outs, steps = od_of sts,
                    connections = []\<rparr>
        in and_then (list_connections self) (\<lambda>(conns, problems'').
             Inr (self\<lparr>problems_with_wf := problems'', connections := conns\<rparr>))))))))"

subsection \<open>Looking a connection up\<close>

fun find_line :: "Connection list \<Rightarrow> Connection \<Rightarrow> (nat \<times> nat) option" where
  "find_line [] conn = None"
| "find_line (existing_conn # rest) conn =
     (if Connection_eq existing_conn conn then line_Connection existing_conn
      else find_line rest conn)"

definition find_connection :: "Workflow \<Rightarrow> Connection \<Rightarrow> (nat \<times> nat) option" where
  "find_connection self conn = find_line (connections self) conn"

section \<open>Example documents\<close>

text \<open>
  A workflow document with the five required sections, no workflow outputs, and one step
  \<^verbatim>\<open>A\<close> whose sub-process is declared inline and whose sink \<^verbatim>\<open>in1\<close> is bound to
  \<open>source\<close>:
  \<^verbatim>\<open>
  cwlVersion: v1.0
  class: Workflow
  inputs: <ins>
  outputs: {}
  steps:
    A:
      run:
        inputs: <sub_ins>
        outputs: <sub_outs>
      in:
        in1: {source: <source>}
  \<close>
\<close>

definition step_A :: "(string \<times> node) list \<Rightarrow> (string \<times> node) list \<Rightarrow> node \<Rightarrow> node" where
  "step_A sub_ins sub_outs source =
     CWLMap
       [(''run'', CWLMap [(''inputs'', CWLMap sub_ins 8 9),
                         (''outputs'', CWLMap sub_outs 10 11)] 7 11),
        (''in'', CWLMap [(''in1'', CWLMap [(''source'', source)] 13 13)] 12 13)] 6 13"

definition doc_A ::
  "(string \<times> node) list \<Rightarrow> (string \<times> node) list \<Rightarrow> (string \<times> node) list \<Rightarrow> node \<Rightarrow> CwlDoc" where
  "doc_A ins sub_ins sub_outs source =
     \<lparr>cwl_dict = CWLMap
        [(''cwlVersion'', Scalar (Str ''v1.0'')),
         (''class'', Scalar (Str ''Workflow'')),
         (''inputs'', CWLMap ins 2 3),
         (''outputs'', CWLMap [] 4 4),
         (''steps'', CWLMap [(''A'', step_A sub_ins sub_outs source)] 5 13)] 0 13,
      path = ''/wf/main.cwl''\<rparr>"

text \<open>The declarations \<^verbatim>\<open>x: {type: string}\<close>, \<^verbatim>\<open>in1: {type: string}\<close> and
  \<^verbatim>\<open>out1: {type: string}\<close>.\<close>

definition decl_x :: "(string \<times> node) list" where
  "decl_x = [(''x'', CWLMap [(''type'', Scalar (Str ''string''))] 3 3)]"

definition decl_in1 :: "(string \<times> node) list" where
  "decl_in1 = [(''in1'', CWLMap [(''type'', Scalar (Str ''string''))] 9 9)]"

definition decl_out1 :: "(string \<times> node) list" where
  "decl_out1 = [(''out1'', CWLMap [(''type'', Scalar (Str ''string''))] 11 11)]"

text \<open>A disk that holds no file: every \<^verbatim>\<open>run\<close> path fails with \<^verbatim>\<open>FileNotFoundError\<close>.\<close>

definition no_files :: world where
  "no_files = \<lparr>as_uri = (\<lambda>root run. ''file:///wf/'' @ run),
                read_cwl = (\<lambda>root run. FileNotFoundError)\<rparr>"

text \<open>The ports and connections the example documents give rise to.\<close>

definition port_x :: Port where
  "port_x = \<lparr>node_id = None, port_id = ''x'', line_Port = Some (3, 3)\<rparr>"

definition port_in1 :: Port where
  "port_in1 = \<lparr>node_id = Some ''A'', port_id = ''in1'', line_Port = None\<rparr>"

definition port_out1 :: Port where
  "port_out1 = \<lparr>node_id = Some ''A'', port_id = ''out1'', line_Port = None\<rparr>"

definition conn_x_in1 :: Connection where
  "conn_x_in1 = \<lparr>line_Connection = Some (3, 3), src = port_x, dst = port_in1\<rparr>"

definition conn_out1_in1 :: Connection where
  "conn_out1_in1 = \<lparr>line_Connection = None, src = port_out1, dst = port_in1\<rparr>"

text \<open>
  The workflow built from \<open>doc_A decl_x decl_in1 decl_out1 source\<close>, up to its connections
  and problems.
\<close>

definition flow_A :: "node \<Rightarrow> Connection list \<Rightarrow> string list \<Rightarrow> Workflow" where
  "flow_A source conns problems =
     \<lparr>cwl_doc = doc_A decl_x decl_in1 decl_out1 source,
      problems_with_wf = problems,
      inputs = OrderedDict [(''x'', port_x)],
      outputs = OrderedDict [],
      steps = OrderedDict
        [(''A'', \<lparr>line_Step = (6, 13), id_Step = ''A'',
                  available_sinks = OrderedDict [(''in1'', port_in1)],
                  available_sources = OrderedDict [(''out1'', port_out1)]\<rparr>)],
      connections = conns\<rparr>"

text \<open>A document without the section \<^verbatim>\<open>outputs\<close>, and the workflow built from it.\<close>

definition doc_no_outputs :: CwlDoc where
  "doc_no_outputs =
     \<lparr>cwl_dict = CWLMap
        [(''cwlVersion'', Scalar (Str ''v1.0'')),
         (''class'', Scalar (Str ''Workflow'')),
         (''inputs'', CWLMap decl_x 2 3),
         (''steps'', CWLMap [] 4 4)] 0 4,
      path = ''/wf/main.cwl''\<rparr>"

definition flow_no_outputs :: Workflow where
  "flow_no_outputs =
     \<lparr>cwl_doc = doc_no_outputs,
      problems_with_wf = [CHR 0x27 # ''outputs' missing''],
      inputs = OrderedDict [(''x'', port_x)],
      outputs = OrderedDict [],
      steps = OrderedDict [],
      connections = []\<rparr>"

text \<open>
  A document with two steps: \<^verbatim>\<open>B\<close> runs the file \<^verbatim>\<open>missing.cwl\<close>, and \<^verbatim>\<open>A\<close> is the
  inline step bound to the workflow input \<^verbatim>\<open>x\<close>; and the workflow built from it on the
  empty disk.
\<close>

definition step_B :: node where
  "step_B = CWLMap [(''run'', Scalar (Str ''missing.cwl'')), (''in'', CWLMap [] 7 7)] 5 7"

definition doc_B_A :: CwlDoc where
  "doc_B_A =
     \<lparr>cwl_dict = CWLMap
        [(''cwlVersion'', Scalar (Str ''v1.0'')),
         (''class'', Scalar (Str ''Workflow'')),
         (''inputs'', CWLMap decl_x 2 3),
         (''outputs'', CWLMap [] 4 4),
         (''steps'', CWLMap [(''B'', step_B),
                            (''A'', step_A decl_in1 decl_out1 (Scalar (Str ''x'')))] 5 13)] 0 13,
      path = ''/wf/main.cwl''\<rparr>"

definition flow_B_A :: Workflow where
  "flow_B_A =
     \<lparr>cwl_doc = doc_B_A,
      problems_with_wf =
        [''Could not find sub workflow: missing.cwl (resolved to file:///wf/missing.cwl)''],
      inputs = OrderedDict [(''x'', port_x)],
      outputs = OrderedDict [],
      steps = OrderedDict
        [(''B'', \<lparr>line_Step = (5, 7), id_Step = ''B'',
                  available_sinks = OrderedDict [], available_sources = OrderedDict []\<rparr>),
         (''A'', \<lparr>line_Step = (6, 13), id_Step = ''A'',
                  available_sinks = OrderedDict [(''in1'', port_in1)],
                  available_sources = OrderedDict [(''out1'', port_out1)]\<rparr>)],
      connections = [conn_x_in1]\<rparr>"

text \<open>
  A document whose workflow output \<^verbatim>\<open>out\<close> lists three sources, the last of them
  undeclared, and the workflow built from it:
  \<^verbatim>\<open>outputs: {out: {outputSource: [x, A/out1, nope]}}\<close>.
\<close>

definition doc_out :: CwlDoc where
  "doc_out =
     \<lparr>cwl_dict = CWLMap
        [(''cwlVersion'', Scalar (Str ''v1.0'')),
         (''class'', Scalar (Str ''Workflow'')),
         (''inputs'', CWLMap decl_x 2 3),
         (''outputs'', CWLMap
            [(''out'', CWLMap
               [(''outputSource'',
                 CWLList [Scalar (Str ''x''), Scalar (Str ''A/out1''), Scalar (Str ''nope'')] 5 5)]
               5 5)] 4 5),
         (''steps'', CWLMap [(''A'', step_A decl_in1 decl_out1 (Scalar (Str ''x'')))] 5 13)] 0 13,
      path = ''/wf/main.cwl''\<rparr>"

definition port_out :: Port where
  "port_out = \<lparr>node_id = None, port_id = ''out'', line_Port = Some (5, 5)\<rparr>"

definition flow_out :: Workflow where
  "flow_out =
     \<lparr>cwl_doc = doc_out,
      problems_with_wf = [''out: No such WF input nope''],
      inputs = OrderedDict [(''x'', port_x)],
      outputs = OrderedDict [(''out'', port_out)],
      steps = OrderedDict
        [(''A'', \<lparr>line_Step = (6, 13), id_Step = ''A'',
                  available_sinks = OrderedDict [(''in1'', port_in1)],
                  available_sources = OrderedDict [(''out1'', port_out1)]\<rparr>)],
      connections =
        [conn_x_in1,
         \<lparr>line_Connection = Some (3, 3), src = port_x, dst = port_out\<rparr>,
         \<lparr>line_Connection = None, src = port_out1, dst = port_out\<rparr>]\<rparr>"

section \<open>Invariants of a built workflow\<close>

text \<open>
  A workflow-level port carries its key and a line span and no node; a step port carries
  the id of its step and its key and no line.
\<close>

definition wf_input_port :: "string \<Rightarrow> Port \<Rightarrow> bool" where
  "wf_input_port k p = (node_id p = None \<and> port_id p = k \<and> line_Port p \<noteq> None)"

definition step_port :: "string \<Rightarrow> string \<Rightarrow> Port \<Rightarrow> bool" where
  "step_port sid k p = (node_id p = Some sid \<and> port_id p = k \<and> line_Port p = None)"

definition step_ok :: "string \<Rightarrow> Step \<Rightarrow> bool" where
  "step_ok k st =
     (id_Step st = k
      \<and> list_all (\<lambda>(pk, p). step_port k pk p) (items (available_sinks st))
      \<and> list_all (\<lambda>(pk, p). step_port k pk p) (items (available_sources st)))"

definition ports_ok :: "Workflow \<Rightarrow> bool" where
  "ports_ok self =
     (list_all (\<lambda>(k, p). wf_input_port k p) (items (inputs self))
      \<and> list_all (\<lambda>(k, st). step_ok k st) (items (steps self)))"

definition is_source :: "Workflow \<Rightarrow> Port \<Rightarrow> bool" where
  "is_source self p =
     (case node_id p of
        None \<Rightarrow> dict_get (inputs self) (port_id p) = Some p \<and> line_Port p \<noteq> None
      | Some sid \<Rightarrow>
          (case dict_get (steps self) sid of
             None \<Rightarrow> False
           | Some st \<Rightarrow> dict_get (available_sources st) (port_id p) = Some p \<and> line_Port p = None))"

definition conn_ok :: "Workflow \<Rightarrow> Connection \<Rightarrow> bool" where
  "conn_ok self c = (line_Connection c = line_Port (src c) \<and> is_source self (src c))"

definition diag :: "string \<Rightarrow> bool" where
  "diag p = (CHR '':'' \<in> set p)"


text \<open>
  The loops of \<^verbatim>\<open>_list_connections\<close> only append: connections whose source is a port of
  the workflow, and diagnostics.
\<close>

definition extends ::
  "Workflow \<Rightarrow> Connection list \<times> string list \<Rightarrow> Connection list \<times> string list \<Rightarrow> bool" where
  "extends self acc acc' =
     (\<exists>cs extra. fst acc' = fst acc @ cs \<and> snd acc' = snd acc @ extra
        \<and> list_all (conn_ok self) cs \<and> list_all diag extra)"


section \<open>Properties of the operations\<close>

subsection \<open>Ordered dictionaries\<close>

lemma set_od_set: "set (od_set d k v) \<subseteq> insert (k, v) (set d)"
  by (induction d) (auto split: if_splits)

lemma keys_od_set: "fst ` set (od_set d k v) = insert k (fst ` set d)"
proof (induction d)
  case Nil
  then show ?case by simp
next
  case (Cons a d)
  obtain k' v' where a: "a = (k', v')" by (cases a)
  show ?case
  proof (cases "k' = k")
    case True
    then show ?thesis by (simp add: a)
  next
    case False
    then show ?thesis by (simp add: a Cons.IH insert_commute)
  qed
qed

lemma map_of_od_set: "map_of (od_set d k v) = (map_of d)(k \<mapsto> v)"
  by (induction d) (auto simp: fun_eq_iff)

lemma od_set_fresh: "k \<notin> fst ` set d \<Longrightarrow> od_set d k v = d @ [(k, v)]"
  by (induction d) auto

lemma set_fold_od_set:
  "set (fold (\<lambda>(k, v) d. od_set d k v) kvs d0) \<subseteq> set kvs \<union> set d0"
proof (induction kvs arbitrary: d0)
  case Nil
  then show ?case by simp
next
  case (Cons a kvs)
  obtain k v where a: "a = (k, v)" by (cases a)
  have "set (fold (\<lambda>(k, v) d. od_set d k v) kvs (od_set d0 k v)) \<subseteq> set kvs \<union> set (od_set d0 k v)"
    by (rule Cons.IH)
  with set_od_set [of d0 k v] show ?case by (auto simp: a)
qed

lemma keys_fold_od_set:
  "fst ` set (fold (\<lambda>(k, v) d. od_set d k v) kvs d0) = fst ` set kvs \<union> fst ` set d0"
proof (induction kvs arbitrary: d0)
  case Nil
  then show ?case by simp
next
  case (Cons a kvs)
  obtain k v where a: "a = (k, v)" by (cases a)
  show ?case by (auto simp: a Cons.IH keys_od_set)
qed

lemma fold_od_set_distinct:
  "distinct (map fst kvs) \<Longrightarrow> fst ` set kvs \<inter> fst ` set d0 = {}
     \<Longrightarrow> fold (\<lambda>(k, v) d. od_set d k v) kvs d0 = d0 @ kvs"
proof (induction kvs arbitrary: d0)
  case Nil
  then show ?case by simp
next
  case (Cons a kvs)
  obtain k v where a: "a = (k, v)" by (cases a)
  from Cons.prems have fresh: "k \<notin> fst ` set d0" by (auto simp: a)
  from Cons.prems have "distinct (map fst kvs)" "fst ` set kvs \<inter> fst ` set (d0 @ [(k, v)]) = {}"
    by (auto simp: a)
  then have "fold (\<lambda>(k, v) d. od_set d k v) kvs (d0 @ [(k, v)]) = (d0 @ [(k, v)]) @ kvs"
    by (rule Cons.IH)
  then show ?case by (simp add: a od_set_fresh [OF fresh])
qed

lemma items_od_of_subset: "set (items (od_of kvs)) \<subseteq> set kvs"
  using set_fold_od_set [of kvs "[]"] by (simp add: od_of_def)

lemma keys_od_of: "fst ` set (items (od_of kvs)) = fst ` set kvs"
  using keys_fold_od_set [of kvs "[]"] by (simp add: od_of_def)

lemma od_of_distinct: "distinct (map fst kvs) \<Longrightarrow> od_of kvs = OrderedDict kvs"
  using fold_od_set_distinct [of kvs "[]"] by (simp add: od_of_def)

lemma list_all_od_of: "list_all P kvs \<Longrightarrow> list_all P (items (od_of kvs))"
  using items_od_of_subset [of kvs] by (auto simp: list_all_iff)

lemma dict_get_in_items: "dict_get d k = Some v \<Longrightarrow> (k, v) \<in> set (items d)"
  by (simp add: dict_get_def map_of_SomeD)

lemma dict_get_None_iff: "dict_get d k = None \<longleftrightarrow> k \<notin> fst ` set (items d)"
  by (simp add: dict_get_def map_of_eq_None_iff)

subsection \<open>Workflow ports\<close>

lemma wf_ports_ok:
  "wf_ports kvs = Inr ps \<Longrightarrow> list_all (\<lambda>(k, p). wf_input_port k p) ps \<and> map fst ps = map fst kvs"
proof (induction kvs arbitrary: ps)
  case Nil
  then show ?case by simp
next
  case (Cons a kvs)
  obtain k v where a: "a = (k, v)" by (cases a)
  from Cons.prems obtain ln ps' where
    "line_span v = Inr ln" "wf_ports kvs = Inr ps'"
    "ps = (k, \<lparr>node_id = None, port_id = k, line_Port = Some ln\<rparr>) # ps'"
    by (auto simp: a split: sum.splits)
  with Cons.IH [of ps'] show ?case by (simp add: a wf_input_port_def)
qed


subsection \<open>Step interfaces\<close>

lemma diag_append: "diag (a @ '': '' @ b)"
  by (simp add: diag_def)

lemma interface_ports_ok:
  "list_all (\<lambda>(pk, p). step_port sid pk p) (items (interface_ports sid kvs))"
  unfolding interface_ports_def
  by (rule list_all_od_of) (simp add: list_all_iff step_port_def split_beta)

lemma load_sub_process_diag:
  "load_sub_process w root run errs = Inr (sp, errs')
     \<Longrightarrow> \<exists>extra. errs' = errs @ extra \<and> list_all diag extra"
  by (auto simp: load_sub_process_def diag_def
           split: node.splits scalar.splits file_result.splits)

lemma from_doc_ok:
  assumes "from_doc w sid ln v root probs = Inr (st, probs')"
  shows "step_ok sid st \<and> line_Step st = ln
           \<and> (\<exists>extra. probs' = probs @ extra \<and> list_all diag extra)"
  using assms unfolding from_doc_def Let_def and_then_def
  by (auto simp: step_ok_def interface_ports_ok
           split: if_splits sum.splits prod.splits dest: load_sub_process_diag)

subsection \<open>The steps of a workflow\<close>

lemma wf_steps_ok:
  "wf_steps w root sds probs = Inr (sts, probs')
     \<Longrightarrow> map fst sts = map fst sds
         \<and> list_all (\<lambda>(k, st). step_ok k st) sts
         \<and> (\<exists>extra. probs' = probs @ extra \<and> list_all diag extra)"
proof (induction sds arbitrary: probs sts probs')
  case Nil
  then show ?case by simp
next
  case (Cons a sds)
  obtain k v where a: "a = (k, v)" by (cases a)
  from Cons.prems obtain ln st p1 sts1 where
    fd: "from_doc w k ln v root probs = Inr (st, p1)" and
    rest: "wf_steps w root sds p1 = Inr (sts1, probs')" and
    sts: "sts = (k, st) # sts1"
    by (auto simp: a split: sum.splits prod.splits)
  from from_doc_ok [OF fd] obtain e1 where
    st: "step_ok k st" and p1: "p1 = probs @ e1" "list_all diag e1" by blast
  from Cons.IH [OF rest] obtain e2 where
    ih: "map fst sts1 = map fst sds" "list_all (\<lambda>(k, st). step_ok k st) sts1"
        "probs' = p1 @ e2" "list_all diag e2" by blast
  have "probs' = probs @ (e1 @ e2)" "list_all diag (e1 @ e2)"
    using p1 ih by simp_all
  then show ?case using st ih sts a by auto
qed

subsection \<open>Resolved references\<close>

lemma ports_ok_input:
  "ports_ok self \<Longrightarrow> dict_get (inputs self) k = Some p \<Longrightarrow> wf_input_port k p"
  by (auto simp: ports_ok_def list_all_iff dest!: dict_get_in_items)

lemma ports_ok_source:
  "ports_ok self \<Longrightarrow> dict_get (steps self) sid = Some st
     \<Longrightarrow> dict_get (available_sources st) k = Some p \<Longrightarrow> step_port sid k p"
  by (auto simp: ports_ok_def step_ok_def list_all_iff dest!: dict_get_in_items)

lemma get_step_source_ok:
  "ports_ok self \<Longrightarrow> get_step_source self s = Inr p \<Longrightarrow> is_source self p"
  by (auto simp: get_step_source_def is_source_def step_port_def
           split: list.splits option.splits dest: ports_ok_source)

lemma get_source_ok:
  "ports_ok self \<Longrightarrow> get_source self r = Inr p \<Longrightarrow> is_source self p"
  by (auto simp: get_source_def is_source_def wf_input_port_def
           split: node.splits scalar.splits if_splits option.splits
           dest: ports_ok_input get_step_source_ok)

lemma is_source_unique:
  assumes p: "is_source self p" and q: "is_source self q" and eq: "Port_eq p q"
  shows "p = q"
proof (cases "node_id p")
  case None
  with eq have "node_id q = None" "port_id q = port_id p" by (simp_all add: Port_eq_def)
  with p q None have "Some p = Some q" by (simp add: is_source_def)
  then show ?thesis by simp
next
  case (Some sid)
  with eq have nq: "node_id q = Some sid" "port_id q = port_id p" by (simp_all add: Port_eq_def)
  show ?thesis
  proof (cases "dict_get (steps self) sid")
    case None
    with p Some show ?thesis by (simp add: is_source_def)
  next
    case (Some st)
    with p q nq \<open>node_id p = Some sid\<close> have "Some p = Some q" by (simp add: is_source_def)
    then show ?thesis by simp
  qed
qed

lemma is_source_line:
  "is_source self p \<Longrightarrow> (line_Port p = None) = (node_id p \<noteq> None)"
  by (auto simp: is_source_def split: option.splits)


subsection \<open>The connection loops\<close>

lemma connect_sources_ok:
  "ports_ok self \<Longrightarrow>
   connect_sources self sink label refs (conns, probs) = Inr (conns', probs')
     \<Longrightarrow> \<exists>cs extra. conns' = conns @ cs \<and> probs' = probs @ extra
           \<and> list_all (conn_ok self) cs \<and> list_all (\<lambda>c. dst c = sink) cs
           \<and> list_all diag extra \<and> length cs + length extra = length refs"
proof (induction refs arbitrary: conns probs)
  case Nil
  then show ?case by simp
next
  case (Cons r refs)
  show ?case
  proof (cases "get_source self r")
    case (Inr source)
    let ?c = "\<lparr>line_Connection = line_Port source, src = source, dst = sink\<rparr>"
    from Cons.prems(2) Inr have
      "connect_sources self sink label refs (conns @ [?c], probs) = Inr (conns', probs')"
      by simp
    from Cons.IH [OF Cons.prems(1) this] obtain cs extra where
      ih: "conns' = (conns @ [?c]) @ cs" "probs' = probs @ extra"
          "list_all (conn_ok self) cs" "list_all (\<lambda>c. dst c = sink) cs"
          "list_all diag extra" "length cs + length extra = length refs" by blast
    have c: "conn_ok self ?c"
      using get_source_ok [OF Cons.prems(1) Inr] by (simp add: conn_ok_def)
    have "conns' = conns @ (?c # cs)" using ih(1) by simp
    moreover have "list_all (conn_ok self) (?c # cs)" using c ih(3) by simp
    moreover have "list_all (\<lambda>c. dst c = sink) (?c # cs)" using ih(4) by simp
    moreover have "length (?c # cs) + length extra = length (r # refs)" using ih(6) by simp
    ultimately show ?thesis using ih(2,5) by blast
  next
    case (Inl err)
    show ?thesis
    proof (cases err)
      case (WFConnectionError e)
      from Cons.prems(2) Inl WFConnectionError have
        "connect_sources self sink label refs (conns, probs @ [label @ '': '' @ e])
           = Inr (conns', probs')"
        by simp
      from Cons.IH [OF Cons.prems(1) this] obtain cs extra where
        ih: "conns' = conns @ cs" "probs' = (probs @ [label @ '': '' @ e]) @ extra"
            "list_all (conn_ok self) cs" "list_all (\<lambda>c. dst c = sink) cs"
            "list_all diag extra" "length cs + length extra = length refs" by blast
      have "probs' = probs @ ((label @ '': '' @ e) # extra)" using ih(2) by simp
      moreover have "list_all diag ((label @ '': '' @ e) # extra)"
        using ih(5) diag_append by simp
      moreover have "length cs + length ((label @ '': '' @ e) # extra) = length (r # refs)"
        using ih(6) by simp
      ultimately show ?thesis using ih(1,3,4) by blast
    qed (use Cons.prems(2) Inl in simp_all)
  qed
qed


lemma extends_refl: "extends self acc acc"
  by (simp add: extends_def)

lemma extends_trans:
  assumes "extends self a b" and "extends self b c"
  shows "extends self a c"
proof -
  from assms(1) obtain cs1 e1 where
    1: "fst b = fst a @ cs1" "snd b = snd a @ e1" "list_all (conn_ok self) cs1" "list_all diag e1"
    unfolding extends_def by blast
  from assms(2) obtain cs2 e2 where
    2: "fst c = fst b @ cs2" "snd c = snd b @ e2" "list_all (conn_ok self) cs2" "list_all diag e2"
    unfolding extends_def by blast
  have "fst c = fst a @ (cs1 @ cs2)" "snd c = snd a @ (e1 @ e2)"
       "list_all (conn_ok self) (cs1 @ cs2)" "list_all diag (e1 @ e2)"
    using 1 2 by simp_all
  then show ?thesis unfolding extends_def by blast
qed

lemma extends_problem: "diag p \<Longrightarrow> extends self (conns, probs) (conns, probs @ [p])"
  by (simp add: extends_def)

lemma connect_sources_extends:
  assumes "ports_ok self"
    and "connect_sources self sink label refs (conns, probs) = Inr acc'"
  shows "extends self (conns, probs) acc'"
proof -
  obtain conns' probs' where acc': "acc' = (conns', probs')" by (cases acc')
  from connect_sources_ok [OF assms(1) assms(2) [unfolded acc']]
  show ?thesis unfolding extends_def acc' by auto
qed

lemma diag_no_such_sink: "diag (''No such sink: '' @ a @ ''.'' @ b)"
  by (simp add: diag_def)

lemma diag_invalid_step: "diag (''Invalid step: '' @ a)"
  by (simp add: diag_def)

lemma connect_sinks_extends:
  "ports_ok self \<Longrightarrow> connect_sinks self this_step bindings acc = Inr acc'
     \<Longrightarrow> extends self acc acc'"
proof (induction bindings arbitrary: acc)
  case Nil
  then show ?case by (simp add: extends_refl)
next
  case (Cons b bindings)
  obtain sink_id port_doc where b: "b = (sink_id, port_doc)" by (cases b)
  obtain conns probs where acc: "acc = (conns, probs)" by (cases acc)
  show ?case
  proof (cases "dict_get (available_sinks this_step) sink_id")
    case None
    let ?acc1 = "(conns, probs @ [''No such sink: '' @ id_Step this_step @ ''.'' @ sink_id])"
    from Cons.prems(2) None have "connect_sinks self this_step bindings ?acc1 = Inr acc'"
      by (simp add: b acc)
    from Cons.IH [OF Cons.prems(1) this] have "extends self ?acc1 acc'" .
    with extends_problem [OF diag_no_such_sink] show ?thesis
      unfolding acc by (rule extends_trans)
  next
    case (Some sink)
    from Cons.prems(2) Some obtain has_source where
      hs: "py_in ''source'' port_doc = Inr has_source"
      by (auto simp: b acc split: sum.splits)
    show ?thesis
    proof (cases has_source)
      case False
      with Cons.prems(2) Some hs have "connect_sinks self this_step bindings acc = Inr acc'"
        by (simp add: b acc)
      from Cons.IH [OF Cons.prems(1) this] show ?thesis .
    next
      case True
      with Cons.prems(2) Some hs obtain v acc1 where
        cs: "connect_sources self sink (Step_repr this_step @ ''.'' @ sink_id)
               (iter_scalar_or_list v) (conns, probs) = Inr acc1" and
        rest: "connect_sinks self this_step bindings acc1 = Inr acc'"
        by (auto simp: b acc split: sum.splits)
      from connect_sources_extends [OF Cons.prems(1) cs] Cons.IH [OF Cons.prems(1) rest]
      show ?thesis unfolding acc by (rule extends_trans)
    qed
  qed
qed

lemma connect_steps_extends:
  "ports_ok self \<Longrightarrow> connect_steps self step_docs acc = Inr acc'
     \<Longrightarrow> extends self acc acc'"
proof (induction step_docs arbitrary: acc)
  case Nil
  then show ?case by (simp add: extends_refl)
next
  case (Cons a step_docs)
  obtain step_id step_doc where a: "a = (step_id, step_doc)" by (cases a)
  obtain conns probs where acc: "acc = (conns, probs)" by (cases acc)
  show ?case
  proof (cases "\<exists>m s e. step_doc = CWLMap m s e")
    case True
    then obtain m s e where sd: "step_doc = CWLMap m s e" by blast
    from Cons.prems(2) obtain this_step bindings acc1 where
      cs: "connect_sinks self this_step bindings (conns, probs) = Inr acc1" and
      rest: "connect_steps self step_docs acc1 = Inr acc'"
      by (auto simp: a acc sd split: sum.splits)
    from connect_sinks_extends [OF Cons.prems(1) cs] Cons.IH [OF Cons.prems(1) rest]
    show ?thesis unfolding acc by (rule extends_trans)
  next
    case False
    let ?acc1 = "(conns, probs @ [''Invalid step: '' @ step_id])"
    from False Cons.prems(2) have "connect_steps self step_docs ?acc1 = Inr acc'"
      by (cases step_doc) (simp_all add: a acc)
    from Cons.IH [OF Cons.prems(1) this] have "extends self ?acc1 acc'" .
    with extends_problem [OF diag_invalid_step] show ?thesis
      unfolding acc by (rule extends_trans)
  qed
qed

lemma connect_outputs_extends:
  "ports_ok self \<Longrightarrow> connect_outputs self out_docs acc = Inr acc'
     \<Longrightarrow> extends self acc acc'"
proof (induction out_docs arbitrary: acc)
  case Nil
  then show ?case by (simp add: extends_refl)
next
  case (Cons a out_docs)
  obtain out_id out_doc where a: "a = (out_id, out_doc)" by (cases a)
  obtain conns probs where acc: "acc = (conns, probs)" by (cases acc)
  from Cons.prems(2) obtain sink has_source where
    sink: "dict_getitem (outputs self) out_id = Inr sink" and
    hs: "py_in ''outputSource'' out_doc = Inr has_source"
    by (auto simp: a acc split: sum.splits)
  show ?case
  proof (cases has_source)
    case False
    with Cons.prems(2) sink hs have "connect_outputs self out_docs acc = Inr acc'"
      by (simp add: a acc)
    from Cons.IH [OF Cons.prems(1) this] show ?thesis .
  next
    case True
    with Cons.prems(2) sink hs obtain v acc1 where
      cs: "connect_sources self sink (port_id sink)
             (iter_scalar_or_list v) (conns, probs) = Inr acc1" and
      rest: "connect_outputs self out_docs acc1 = Inr acc'"
      by (auto simp: a acc split: sum.splits)
    from connect_sources_extends [OF Cons.prems(1) cs] Cons.IH [OF Cons.prems(1) rest]
    show ?thesis unfolding acc by (rule extends_trans)
  qed
qed

lemma list_connections_extends:
  assumes "ports_ok self" and "list_connections self = Inr acc'"
  shows "extends self ([], problems_with_wf self) acc'"
proof -
  from assms(2) obtain step_docs acc1 out_docs where
    1: "connect_steps self step_docs ([], problems_with_wf self) = Inr acc1" and
    2: "connect_outputs self out_docs acc1 = Inr acc'"
    by (auto simp: list_connections_def and_then_def Let_def split: sum.splits)
  from connect_steps_extends [OF assms(1) 1] connect_outputs_extends [OF assms(1) 2]
  show ?thesis by (rule extends_trans)
qed


subsection \<open>Sequencing\<close>

lemma and_then_Inr: "and_then m f = Inr y \<longleftrightarrow> (\<exists>x. m = Inr x \<and> f x = Inr y)"
  by (cases m) (simp_all add: and_then_def)



subsection \<open>The constructor\<close>

lemma and_then_InrE:
  assumes "and_then m f = Inr y"
  obtains x where "m = Inr x" and "f x = Inr y"
  using assms by (cases m) (simp_all add: and_then_def)

lemma Workflow_init_parts:
  assumes "Workflow_init w doc = Inr flow"
  shows "\<exists>p0 ins outs sds sts p1.
      check_required (cwl_dict doc) required_sections [] = Inr p0
    \<and> and_then (and_then (py_get (cwl_dict doc) ''inputs'') iter_kv) wf_ports = Inr ins
    \<and> and_then (and_then (py_get (cwl_dict doc) ''outputs'') iter_kv) wf_ports = Inr outs
    \<and> and_then (py_get (cwl_dict doc) ''steps'') iter_kv = Inr sds
    \<and> wf_steps w (path doc) sds p0 = Inr (sts, p1)
    \<and> list_connections \<lparr>cwl_doc = doc, problems_with_wf = p1, inputs = od_of ins,
                          outputs = od_of outs, steps = od_of sts, connections = []\<rparr>
        = Inr (connections flow, problems_with_wf flow)
    \<and> cwl_doc flow = doc \<and> inputs flow = od_of ins \<and> outputs flow = od_of outs
    \<and> steps flow = od_of sts"
  using assms unfolding Workflow_init_def Let_def
proof (elim and_then_InrE, goal_cases)
  case (1 p0 ins kvs1 outs n1 kvs2 sds n2 n3 r1)
  obtain sts p1 where r1: "r1 = (sts, p1)" by (cases r1)
  let ?self = "\<lparr>cwl_doc = doc, problems_with_wf = p1, inputs = od_of ins,
                 outputs = od_of outs, steps = od_of sts, connections = []\<rparr>"
  from 1(11) obtain r2 where
    lc: "list_connections ?self = Inr r2" and
    fl: "flow = ?self\<lparr>problems_with_wf := snd r2, connections := fst r2\<rparr>"
    unfolding r1 by (auto elim!: and_then_InrE simp: split_beta)
  have a: "and_then (and_then (py_get (cwl_dict doc) ''inputs'') iter_kv) wf_ports = Inr ins"
    using 1(2,3,4) by (simp add: and_then_def)
  have b: "and_then (and_then (py_get (cwl_dict doc) ''outputs'') iter_kv) wf_ports = Inr outs"
    using 1(5,6,7) by (simp add: and_then_def)
  have c: "and_then (py_get (cwl_dict doc) ''steps'') iter_kv = Inr sds"
    using 1(8,9) by (simp add: and_then_def)
  have d: "wf_steps w (path doc) sds p0 = Inr (sts, p1)"
    using 1(10) r1 by simp
  have e: "list_connections ?self = Inr (connections flow, problems_with_wf flow)"
    using lc fl by simp
  have f: "cwl_doc flow = doc" "inputs flow = od_of ins" "outputs flow = od_of outs"
    "steps flow = od_of sts" using fl by simp_all
  from 1(1) a b c d e f show ?case by blast
qed

lemma ports_ok_fields:
  "inputs a = inputs b \<Longrightarrow> steps a = steps b \<Longrightarrow> ports_ok a = ports_ok b"
  by (simp add: ports_ok_def)

lemma conn_ok_fields:
  "inputs a = inputs b \<Longrightarrow> steps a = steps b \<Longrightarrow> conn_ok a = conn_ok b"
  by (simp add: conn_ok_def is_source_def fun_eq_iff cong: option.case_cong)

lemma built_invariant:
  assumes "Workflow_init w doc = Inr flow"
  shows "ports_ok flow \<and> list_all (conn_ok flow) (connections flow)
       \<and> (\<exists>p0 extra. check_required (cwl_dict doc) required_sections [] = Inr p0
             \<and> problems_with_wf flow = p0 @ extra \<and> list_all diag extra)"
proof -
  from Workflow_init_parts [OF assms] obtain p0 ins outs sds sts p1 where
    1: "check_required (cwl_dict doc) required_sections [] = Inr p0" and
    2: "and_then (and_then (py_get (cwl_dict doc) ''inputs'') iter_kv) wf_ports = Inr ins" and
    5: "wf_steps w (path doc) sds p0 = Inr (sts, p1)" and
    6: "list_connections \<lparr>cwl_doc = doc, problems_with_wf = p1, inputs = od_of ins,
                          outputs = od_of outs, steps = od_of sts, connections = []\<rparr>
        = Inr (connections flow, problems_with_wf flow)" and
    7: "inputs flow = od_of ins" "steps flow = od_of sts"
    by blast
  let ?self = "\<lparr>cwl_doc = doc, problems_with_wf = p1, inputs = od_of ins,
                          outputs = od_of outs, steps = od_of sts, connections = []\<rparr>"
  from 2 obtain kvs where "wf_ports kvs = Inr ins" unfolding and_then_Inr by blast
  then have ins: "list_all (\<lambda>(k, p). wf_input_port k p) ins" using wf_ports_ok by blast
  from wf_steps_ok [OF 5] obtain e1 where
    sts: "list_all (\<lambda>(k, st). step_ok k st) sts" and p1: "p1 = p0 @ e1" "list_all diag e1"
    by blast
  have ok: "ports_ok ?self"
    using ins sts by (simp add: ports_ok_def list_all_od_of)
  have same: "inputs flow = inputs ?self" "steps flow = steps ?self" using 7 by simp_all
  from list_connections_extends [OF ok 6] obtain cs e2 where
    ext: "connections flow = cs" "problems_with_wf flow = p1 @ e2"
         "list_all (conn_ok ?self) cs" "list_all diag e2"
    unfolding extends_def by auto
  have "ports_ok flow" using ok ports_ok_fields [OF same] by simp
  moreover have "list_all (conn_ok flow) (connections flow)"
    using ext(1,3) conn_ok_fields [OF same] by simp
  moreover have "problems_with_wf flow = p0 @ (e1 @ e2)" "list_all diag (e1 @ e2)"
    using p1 ext(2,4) by simp_all
  ultimately show ?thesis using 1 by blast
qed

lemma find_line_first:
  "c \<in> set conns \<Longrightarrow> Connection_eq c cand
     \<Longrightarrow> \<exists>c' \<in> set conns. Connection_eq c' cand \<and> find_line conns cand = line_Connection c'"
  by (induction conns) auto

lemma Port_eq_sym: "Port_eq p q = Port_eq q p"
  by (auto simp: Port_eq_def)

lemma Port_eq_trans: "Port_eq p q \<Longrightarrow> Port_eq q r \<Longrightarrow> Port_eq p r"
  by (simp add: Port_eq_def)

lemma conn_ok_same_line:
  assumes "conn_ok self c" and "conn_ok self c'" and "Port_eq (src c) (src c')"
  shows "line_Connection c = line_Connection c'"
proof -
  from assms have "src c = src c'" by (auto simp: conn_ok_def intro: is_source_unique)
  with assms(1,2) show ?thesis by (simp add: conn_ok_def)
qed

lemma built_find_line:
  assumes built: "Workflow_init w doc = Inr flow"
    and c: "c \<in> set (connections flow)"
    and s: "Port_eq (src cand) (src c)" and d: "Port_eq (dst cand) (dst c)"
  shows "find_line (connections flow) cand = line_Connection c"
proof -
  from built_invariant [OF built] have oks: "list_all (conn_ok flow) (connections flow)" by blast
  have "Connection_eq c cand" using s d by (simp add: Connection_eq_def Port_eq_sym)
  from find_line_first [OF c this] obtain c' where
    c': "c' \<in> set (connections flow)" "Connection_eq c' cand"
        "find_line (connections flow) cand = line_Connection c'" by blast
  have "Port_eq (src c') (src c)"
    using c'(2) s by (auto simp: Connection_eq_def intro: Port_eq_trans)
  moreover have "conn_ok flow c'" "conn_ok flow c" using oks c c'(1) by (simp_all add: list_all_iff)
  ultimately have "line_Connection c' = line_Connection c" by (rule conn_ok_same_line [rotated 2])
  with c'(3) show ?thesis by simp
qed

subsection \<open>Lookups in the dictionaries of ports\<close>

lemma built_step_ports:
  assumes "ports_ok flow" and "(k, st) \<in> set (items (steps flow))"
    and "(pk, p) \<in> set (items (available_sinks st)) \<union> set (items (available_sources st))"
  shows "line_Port p = None"
  using assms by (auto simp: ports_ok_def step_ok_def step_port_def list_all_iff)

lemma dict_get_OrderedDict: "dict_get (OrderedDict kvs) k = map_of kvs k"
  by (simp add: dict_get_def)

lemma od_of_Nil: "od_of [] = OrderedDict []"
  by (simp add: od_of_def)

lemma od_of_single: "od_of [(k, v)] = OrderedDict [(k, v)]"
  by (simp add: od_of_def)

lemma dict_get_od_of_const:
  assumes "\<And>k v. (k, v) \<in> set kvs \<Longrightarrow> v = f k"
  shows "dict_get (od_of kvs) k = (if k \<in> fst ` set kvs then Some (f k) else None)"
proof (cases "k \<in> fst ` set kvs")
  case True
  then have "k \<in> fst ` set (items (od_of kvs))" by (simp add: keys_od_of)
  then obtain v where v: "dict_get (od_of kvs) k = Some v"
    using dict_get_None_iff [of "od_of kvs" k] by (cases "dict_get (od_of kvs) k") auto
  from dict_get_in_items [OF v] items_od_of_subset have "(k, v) \<in> set kvs" by blast
  with assms v True show ?thesis by simp
next
  case False
  then have "k \<notin> fst ` set (items (od_of kvs))" by (simp add: keys_od_of)
  with False show ?thesis by (simp add: dict_get_None_iff)
qed

lemma dict_get_interface_ports:
  "dict_get (interface_ports sid kvs) k =
     (if k \<in> fst ` set kvs then Some \<lparr>node_id = Some sid, port_id = k, line_Port = None\<rparr>
      else None)"
proof -
  let ?f = "\<lambda>k. \<lparr>node_id = Some sid, port_id = k, line_Port = None\<rparr>"
  let ?kvs = "map (\<lambda>(k, v). (k, ?f k)) kvs"
  have "dict_get (od_of ?kvs) k = (if k \<in> fst ` set ?kvs then Some (?f k) else None)"
    by (rule dict_get_od_of_const) auto
  moreover have "fst ` set ?kvs = fst ` set kvs" by force
  ultimately show ?thesis by (simp add: interface_ports_def)
qed

lemma dict_get_wf_ports:
  assumes "wf_ports kvs = Inr ps"
  shows "k \<in> fst ` set kvs \<Longrightarrow>
           \<exists>ln. dict_get (od_of ps) k = Some \<lparr>node_id = None, port_id = k, line_Port = Some ln\<rparr>"
    and "k \<notin> fst ` set kvs \<Longrightarrow> dict_get (od_of ps) k = None"
proof -
  from wf_ports_ok [OF assms] have
    ok: "list_all (\<lambda>(k, p). wf_input_port k p) ps" and keys: "map fst ps = map fst kvs" by blast+
  from keys have keys': "fst ` set ps = fst ` set kvs" by (metis set_map)
  show "dict_get (od_of ps) k = None" if "k \<notin> fst ` set kvs"
    using that keys' by (simp add: dict_get_None_iff keys_od_of)
  show "\<exists>ln. dict_get (od_of ps) k = Some \<lparr>node_id = None, port_id = k, line_Port = Some ln\<rparr>"
    if "k \<in> fst ` set kvs"
  proof -
    from that keys' have "k \<in> fst ` set (items (od_of ps))" by (simp add: keys_od_of)
    then obtain p where p: "dict_get (od_of ps) k = Some p"
      using dict_get_None_iff [of "od_of ps" k] by (cases "dict_get (od_of ps) k") auto
    from dict_get_in_items [OF p] items_od_of_subset have "(k, p) \<in> set ps" by blast
    with ok have "wf_input_port k p" by (auto simp: list_all_iff)
    then obtain ln where "p = \<lparr>node_id = None, port_id = k, line_Port = Some ln\<rparr>"
      by (cases p) (auto simp: wf_input_port_def)
    with p show ?thesis by blast
  qed
qed

lemma map_of_Some_key: "map_of m k = Some v \<Longrightarrow> k \<in> fst ` set m"
  by (metis map_of_eq_None_iff option.distinct(1))

lemma interface_ports_Nil: "interface_ports sid [] = OrderedDict []"
  by (simp add: interface_ports_def od_of_def)

subsection \<open>Counting connection attempts\<close>

lemma connect_sources_count:
  "connect_sources self sink label refs (conns, probs) = Inr (conns', probs')
     \<Longrightarrow> \<exists>cs ds. conns' = conns @ cs \<and> probs' = probs @ ds
           \<and> length cs + length ds = length refs \<and> list_all (\<lambda>c. dst c = sink) cs"
proof (induction refs arbitrary: conns probs)
  case Nil
  then show ?case by simp
next
  case (Cons r refs)
  show ?case
  proof (cases "get_source self r")
    case (Inr source)
    let ?c = "\<lparr>line_Connection = line_Port source, src = source, dst = sink\<rparr>"
    from Cons.prems Inr have
      "connect_sources self sink label refs (conns @ [?c], probs) = Inr (conns', probs')"
      by simp
    from Cons.IH [OF this] obtain cs ds where
      ih: "conns' = (conns @ [?c]) @ cs" "probs' = probs @ ds"
          "length cs + length ds = length refs" "list_all (\<lambda>c. dst c = sink) cs" by blast
    have "conns' = conns @ (?c # cs)" "length (?c # cs) + length ds = length (r # refs)"
      "list_all (\<lambda>c. dst c = sink) (?c # cs)" using ih by simp_all
    with ih(2) show ?thesis by blast
  next
    case (Inl err)
    show ?thesis
    proof (cases err)
      case (WFConnectionError e)
      from Cons.prems Inl WFConnectionError have
        "connect_sources self sink label refs (conns, probs @ [label @ '': '' @ e])
           = Inr (conns', probs')"
        by simp
      from Cons.IH [OF this] obtain cs ds where
        ih: "conns' = conns @ cs" "probs' = (probs @ [label @ '': '' @ e]) @ ds"
            "length cs + length ds = length refs" "list_all (\<lambda>c. dst c = sink) cs" by blast
      have "probs' = probs @ ((label @ '': '' @ e) # ds)"
        "length cs + length ((label @ '': '' @ e) # ds) = length (r # refs)"
        using ih by simp_all
      with ih(1,4) show ?thesis by blast
    qed (use Cons.prems Inl in simp_all)
  qed
qed

subsection \<open>The required sections\<close>

lemma check_required_map:
  "check_required (CWLMap m s e) secs probs
     = Inr (probs @ map missing_msg (filter (\<lambda>sec. sec \<notin> fst ` set m) secs))"
  by (induction secs arbitrary: probs) simp_all

lemma not_diag_missing_msg: "sec \<in> set required_sections \<Longrightarrow> \<not> diag (missing_msg sec)"
  by (auto simp: required_sections_def diag_def missing_msg_def)

lemma count_list_diag: "list_all diag extra \<Longrightarrow> \<not> diag x \<Longrightarrow> count_list extra x = 0"
  by (induction extra) auto

lemma missing_msg_inject: "missing_msg a = missing_msg b \<longleftrightarrow> a = b"
  by (simp add: missing_msg_def)

lemma count_list_missing:
  "distinct secs \<Longrightarrow>
   count_list (map missing_msg (filter P secs)) (missing_msg sec)
     = (if sec \<in> set secs \<and> P sec then 1 else 0)"
  by (induction secs) (auto simp: missing_msg_inject)

subsection \<open>A step whose file is missing\<close>

lemma from_doc_missing_file:
  assumes "map_of sm ''run'' = Some (Scalar (Str r))"
    and "read_cwl w root r = FileNotFoundError"
  shows "from_doc w k ln (CWLMap sm s e) root probs
           = Inr (\<lparr>line_Step = ln, id_Step = k,
                   available_sinks = OrderedDict [], available_sources = OrderedDict []\<rparr>,
                  probs @ [''Could not find sub workflow: '' @ r @ '' (resolved to ''
                             @ as_uri w root r @ '')''])"
  using assms map_of_Some_key [OF assms(1)]
  by (simp add: from_doc_def load_sub_process_def and_then_def interface_ports_Nil)

lemma wf_steps_member:
  "wf_steps w root sds probs = Inr (sts, probs') \<Longrightarrow> (k, v) \<in> set sds
     \<Longrightarrow> \<exists>ln st pa pb. line_span v = Inr ln \<and> from_doc w k ln v root pa = Inr (st, pb)
           \<and> (k, st) \<in> set sts \<and> set pb \<subseteq> set probs'"
proof (induction sds arbitrary: probs sts)
  case Nil
  then show ?case by simp
next
  case (Cons a sds)
  obtain k' v' where a: "a = (k', v')" by (cases a)
  from Cons.prems(1) obtain ln st p1 sts1 where
    ls: "line_span v' = Inr ln" and
    fd: "from_doc w k' ln v' root probs = Inr (st, p1)" and
    rest: "wf_steps w root sds p1 = Inr (sts1, probs')" and
    sts: "sts = (k', st) # sts1"
    by (auto simp: a split: sum.splits prod.splits)
  show ?case
  proof (cases "(k, v) = (k', v')")
    case True
    from wf_steps_ok [OF rest] have "set p1 \<subseteq> set probs'" by auto
    with True ls fd sts show ?thesis by auto
  next
    case False
    with Cons.prems(2) a have "(k, v) \<in> set sds" by auto
    from Cons.IH [OF rest this] obtain ln' st'' pa pb where
      "line_span v = Inr ln'" "from_doc w k ln' v root pa = Inr (st'', pb)"
      "(k, st'') \<in> set sts1" "set pb \<subseteq> set probs'" by blast
    moreover from this(3) sts have "(k, st'') \<in> set sts" by simp
    ultimately show ?thesis by blast
  qed
qed

lemma built_steps:
  assumes "Workflow_init w doc = Inr flow"
  shows "\<exists>p0 sds sts p1.
      and_then (py_get (cwl_dict doc) ''steps'') iter_kv = Inr sds
    \<and> wf_steps w (path doc) sds p0 = Inr (sts, p1)
    \<and> steps flow = od_of sts \<and> set p1 \<subseteq> set (problems_with_wf flow)"
proof -
  from Workflow_init_parts [OF assms] obtain p0 ins outs sds sts p1 where
    2: "and_then (and_then (py_get (cwl_dict doc) ''inputs'') iter_kv) wf_ports = Inr ins" and
    4: "and_then (py_get (cwl_dict doc) ''steps'') iter_kv = Inr sds" and
    5: "wf_steps w (path doc) sds p0 = Inr (sts, p1)" and
    6: "list_connections \<lparr>cwl_doc = doc, problems_with_wf = p1, inputs = od_of ins,
                          outputs = od_of outs, steps = od_of sts, connections = []\<rparr>
        = Inr (connections flow, problems_with_wf flow)" and
    7: "steps flow = od_of sts"
    by blast
  let ?self = "\<lparr>cwl_doc = doc, problems_with_wf = p1, inputs = od_of ins,
                          outputs = od_of outs, steps = od_of sts, connections = []\<rparr>"
  from 2 obtain kvs where "wf_ports kvs = Inr ins" by (elim and_then_InrE)
  then have ins: "list_all (\<lambda>(k, p). wf_input_port k p) ins" using wf_ports_ok by blast
  from wf_steps_ok [OF 5] have sts: "list_all (\<lambda>(k, st). step_ok k st) sts" by blast
  have ok: "ports_ok ?self"
    using ins sts by (simp add: ports_ok_def list_all_od_of)
  from list_connections_extends [OF ok 6] have "set p1 \<subseteq> set (problems_with_wf flow)"
    unfolding extends_def by auto
  with 4 5 7 show ?thesis by blast
qed

subsection \<open>References with at most one slash\<close>

lemma split_on_no_sep: "sep \<notin> set b \<Longrightarrow> split_on sep b = [b]"
  by (induction b) auto

lemma split_on_one_sep:
  "sep \<notin> set a \<Longrightarrow> sep \<notin> set b \<Longrightarrow> split_on sep (a @ sep # b) = [a, b]"
  by (induction a) (auto simp: split_on_no_sep)

lemma str_contains_char: "str_contains [c] s \<longleftrightarrow> c \<in> set s"
  by (induction s) (auto elim: starts_with.elims)

lemma get_source_resolution:
  "get_source self (Scalar Null) = Inl (WFConnectionError ''No source specified'')"
  "get_source self (Scalar (Str [])) = Inl (WFConnectionError ''No source specified'')"
  "name \<noteq> [] \<Longrightarrow> CHR ''/'' \<notin> set name \<Longrightarrow>
     get_source self (Scalar (Str name)) =
       (case dict_get (inputs self) name of
          None \<Rightarrow> Inl (WFConnectionError (''No such WF input '' @ name))
        | Some p \<Rightarrow> Inr p)"
  "CHR ''/'' \<notin> set sid \<Longrightarrow> CHR ''/'' \<notin> set pid \<Longrightarrow>
     get_source self (Scalar (Str (sid @ ''/'' @ pid))) =
       (case dict_get (steps self) sid of
          None \<Rightarrow> Inl (WFConnectionError (''No such source step '' @ sid))
        | Some st \<Rightarrow>
            (case dict_get (available_sources st) pid of
               None \<Rightarrow> Inl (WFConnectionError (''No such source port '' @ sid @ ''.'' @ pid))
             | Some p \<Rightarrow> Inr p))"
  by (simp_all add: get_source_def get_step_source_def str_contains_char split_on_one_sep)

section \<open>Evaluating the builder\<close>

text \<open>
  The printing of keys: a plain key, a key holding a single quote, and the no-break space,
  which Python escapes.
\<close>

lemma str_repr_examples:
  "str_repr ''in1'' = [CHR 0x27] @ ''in1'' @ [CHR 0x27]"
  "str_repr [CHR ''a'', CHR 0x27, CHR ''b''] = [CHR 0x22, CHR ''a'', CHR 0x27, CHR ''b'', CHR 0x22]"
  "str_repr [CHR 0xA0] = [CHR 0x27, CHR 0x5C, CHR ''x'', CHR ''a'', CHR ''0'', CHR 0x27]"
  "str_repr [CHR 0xE9] = [CHR 0x27, CHR 0xE9, CHR 0x27]"
  by (simp_all add: str_repr_def repr_char_def hex_digit_def Let_def)

lemmas build_defs =
  doc_A_def step_A_def decl_x_def decl_in1_def decl_out1_def
  Workflow_init_def and_then_def required_sections_def missing_msg_def
  from_doc_def load_sub_process_def interface_ports_def od_of_def
  list_connections_def dict_getitem_def dict_get_def get_source_def get_step_source_def

lemmas flow_defs = flow_A_def port_x_def port_in1_def port_out1_def conn_x_in1_def
  conn_out1_in1_def

lemmas doc_A_eval =
  doc_A_def step_A_def Workflow_init_def and_then_def required_sections_def
  from_doc_def load_sub_process_def od_of_Nil od_of_single dict_get_OrderedDict
  dict_get_interface_ports list_connections_def dict_getitem_def
  get_source_def get_step_source_def

lemma build_source_x:
  "Workflow_init w (doc_A decl_x decl_in1 decl_out1 (Scalar (Str ''x'')))
     = Inr (flow_A (Scalar (Str ''x'')) [conn_x_in1] [])"
  by (simp add: build_defs flow_defs)

lemma build_source_out1:
  "Workflow_init w (doc_A decl_x decl_in1 decl_out1 (Scalar (Str ''A/out1'')))
     = Inr (flow_A (Scalar (Str ''A/out1'')) [conn_out1_in1] [])"
  by (simp add: build_defs flow_defs)


lemma build_source_x_out1:
  "Workflow_init w (doc_A decl_x decl_in1 decl_out1 (CWLList [Scalar (Str ''x''), Scalar (Str ''A/out1'')] 13 13))
     = Inr (flow_A (CWLList [Scalar (Str ''x''), Scalar (Str ''A/out1'')] 13 13) [conn_x_in1, conn_out1_in1] [])"
  by (simp add: build_defs flow_defs)

lemma build_no_outputs: "Workflow_init w doc_no_outputs = Inr flow_no_outputs"
  by (simp add: build_defs doc_no_outputs_def flow_no_outputs_def port_x_def)

lemma build_B_A: "Workflow_init no_files doc_B_A = Inr flow_B_A"
  by (simp add: build_defs doc_B_A_def flow_B_A_def step_B_def no_files_def flow_defs)

lemma build_out: "Workflow_init w doc_out = Inr flow_out"
  by (simp add: build_defs doc_out_def flow_out_def port_out_def flow_defs)

lemma build_empty_mapping:
  "Workflow_init w \<lparr>cwl_dict = CWLMap [] s e, path = p\<rparr>
     = Inr \<lparr>cwl_doc = \<lparr>cwl_dict = CWLMap [] s e, path = p\<rparr>,
            problems_with_wf = map missing_msg required_sections,
            inputs = OrderedDict [], outputs = OrderedDict [], steps = OrderedDict [],
            connections = []\<rparr>"
  by (simp add: Workflow_init_def and_then_def required_sections_def od_of_def
        list_connections_def)

section \<open>The claims\<close>

text \<open>
  C1. The claim: building never raises for a document that parses to a node tree, and
  every referential problem becomes an entry of the problem list. On the code, a source
  reference with two slashes makes \<^verbatim>\<open>src_step_id, src_port_id = _src.split("/")\<close> raise
  \<open>ValueError\<close>, which the handler for \<open>WFConnectionError\<close> does not catch: the
  constructor raises and no workflow is returned.
\<close>

theorem C1_build_raises_on_two_slashes:
  "Workflow_init w (doc_A decl_x decl_in1 decl_out1 (Scalar (Str ''a/b/c''))) = Inl ValueError"
  by (simp add: build_defs)

text \<open>
  C2. The claim: every reference string containing a slash is split into a step and a port
  and either resolves to the source port or fails with one of the two diagnostics for step
  references. On the code, a reference with two slashes raises \<open>ValueError\<close> whatever the
  workflow holds. (For empty references, references without a slash and references with
  exactly one slash, \<open>get_source_resolution\<close> above shows the outcomes the claim lists.)
\<close>

theorem C2_get_source_two_slashes:
  "get_source self (Scalar (Str ''a/b/c'')) = Inl ValueError"
  by (simp add: get_source_def get_step_source_def)

text \<open>
  C3. For a document that declares the workflow input \<^verbatim>\<open>x\<close> (each declared input being a
  mapping or a sequence, so that it has a line span), with the step \<^verbatim>\<open>A\<close> whose inline
  sub-process declares the input \<^verbatim>\<open>in1\<close>, and with the binding
  \<^verbatim>\<open>in1: {source: x}\<close>, the constructor returns a workflow whose connections are exactly
  one connection, from a port equal to \<^verbatim>\<open>Port(None, "x")\<close> to a port equal to
  \<^verbatim>\<open>Port("A", "in1")\<close>.
\<close>

theorem C3_single_connection:
  assumes "wf_ports ins = Inr ps"
    and "''x'' \<in> fst ` set ins" and "''in1'' \<in> fst ` set sub_ins"
  shows "\<exists>flow c. Workflow_init w (doc_A ins sub_ins sub_outs (Scalar (Str ''x''))) = Inr flow
           \<and> connections flow = [c]
           \<and> Port_eq (src c) \<lparr>node_id = None, port_id = ''x'', line_Port = None\<rparr>
           \<and> Port_eq (dst c) \<lparr>node_id = Some ''A'', port_id = ''in1'', line_Port = None\<rparr>"
proof -
  from dict_get_wf_ports(1) [OF assms(1,2)] obtain ln where
    x: "dict_get (od_of ps) ''x'' = Some \<lparr>node_id = None, port_id = ''x'', line_Port = Some ln\<rparr>"
    by blast
  show ?thesis using assms(1,3) x by (simp add: doc_A_eval Port_eq_def)
qed

text \<open>
  The theorem C3 at the document with \<^verbatim>\<open>x: {type: string}\<close>, \<^verbatim>\<open>in1: {type: string}\<close> and
  \<^verbatim>\<open>out1: {type: string}\<close>.
\<close>

theorem C3_witness:
  "wf_ports decl_x = Inr [(''x'', port_x)]
   \<and> ''x'' \<in> fst ` set decl_x \<and> ''in1'' \<in> fst ` set decl_in1
   \<and> (\<exists>flow c. Workflow_init no_files (doc_A decl_x decl_in1 decl_out1 (Scalar (Str ''x'')))
                   = Inr flow
           \<and> connections flow = [c]
           \<and> Port_eq (src c) \<lparr>node_id = None, port_id = ''x'', line_Port = None\<rparr>
           \<and> Port_eq (dst c) \<lparr>node_id = Some ''A'', port_id = ''in1'', line_Port = None\<rparr>)"
proof -
  have 1: "wf_ports decl_x = Inr [(''x'', port_x)]" by (simp add: decl_x_def port_x_def)
  have 2: "''x'' \<in> fst ` set decl_x" by (simp add: decl_x_def)
  have 3: "''in1'' \<in> fst ` set decl_in1" by (simp add: decl_in1_def)
  from C3_single_connection [OF 1 2 3, of no_files decl_out1] 1 2 3 show ?thesis by blast
qed

text \<open>
  C4. The claim: a reference to the undeclared input \<^verbatim>\<open>y\<close> leaves the connections empty
  and adds the diagnostic \<^verbatim>\<open>A.in1: No such WF input y\<close>. On the code the connections are
  empty, but the diagnostic is formatted from the step object, whose \<^verbatim>\<open>__repr__\<close> prints
  the key views around the id; no entry of the problem list contains the text of the
  claim.
\<close>

theorem C4_diagnostic_prints_step_repr:
  "\<exists>wf. Workflow_init w (doc_A decl_x decl_in1 decl_out1 (Scalar (Str ''y''))) = Inr wf
     \<and> connections wf = []
     \<and> problems_with_wf wf =
         [''odict_keys(['in1'])->A->odict_keys(['out1']).in1: No such WF input y'']
     \<and> filter (str_contains ''A.in1: No such WF input y'') (problems_with_wf wf) = []"
  by (simp add: build_defs Step_repr_def str_repr_def repr_char_def Let_def)

text \<open>
  C5. In a built workflow whose document is a mapping with a \<^verbatim>\<open>steps\<close> mapping of
  distinct keys, a step \<open>k\<close> whose \<^verbatim>\<open>run\<close> is the path \<open>r\<close> of a file that does not
  exist is stored under \<open>k\<close> with no sinks and no sources, the problem list holds
  \<^verbatim>\<open>Could not find sub workflow: r (resolved to uri)\<close>, and the workflow holds a step for
  every key of the section, in document order: the steps after \<open>k\<close> were processed.
\<close>

theorem C5_missing_sub_workflow:
  assumes "Workflow_init w doc = Inr flow"
    and "cwl_dict doc = CWLMap m s e"
    and "map_of m ''steps'' = Some (CWLMap sds s1 e1)"
    and "distinct (map fst sds)"
    and "(k, CWLMap sm s2 e2) \<in> set sds"
    and "map_of sm ''run'' = Some (Scalar (Str r))"
    and "read_cwl w (path doc) r = FileNotFoundError"
  shows "dict_get (steps flow) k
           = Some \<lparr>line_Step = (s2, e2), id_Step = k,
                   available_sinks = OrderedDict [], available_sources = OrderedDict []\<rparr>
       \<and> (''Could not find sub workflow: '' @ r @ '' (resolved to ''
             @ as_uri w (path doc) r @ '')'') \<in> set (problems_with_wf flow)
       \<and> map fst (items (steps flow)) = map fst sds"
proof -
  let ?msg = "''Could not find sub workflow: '' @ r @ '' (resolved to ''
             @ as_uri w (path doc) r @ '')''"
  let ?st = "\<lparr>line_Step = (s2, e2), id_Step = k,
                   available_sinks = OrderedDict [], available_sources = OrderedDict []\<rparr>"
  from built_steps [OF assms(1)] obtain p0 sds' sts p1 where
    sec: "and_then (py_get (cwl_dict doc) ''steps'') iter_kv = Inr sds'" and
    ws: "wf_steps w (path doc) sds' p0 = Inr (sts, p1)" and
    st: "steps flow = od_of sts" and
    sub: "set p1 \<subseteq> set (problems_with_wf flow)"
    by blast
  from sec have sds': "sds' = sds" by (simp add: assms(2,3) and_then_def)
  from wf_steps_ok [OF ws] have keys: "map fst sts = map fst sds" by (simp add: sds')
  with assms(4) have dist: "distinct (map fst sts)" by simp
  then have od: "od_of sts = OrderedDict sts" by (rule od_of_distinct)
  from wf_steps_member [OF ws] assms(5) obtain ln st' pa pb where
    m: "line_span (CWLMap sm s2 e2) = Inr ln"
       "from_doc w k ln (CWLMap sm s2 e2) (path doc) pa = Inr (st', pb)"
       "(k, st') \<in> set sts" "set pb \<subseteq> set p1"
    unfolding sds' by blast
  from m(1) have ln: "ln = (s2, e2)" by simp
  from m(2) from_doc_missing_file [OF assms(6,7), of k ln s2 e2 pa]
  have st': "st' = ?st" and pb: "pb = pa @ [?msg]" by (simp_all add: ln)
  have 1: "dict_get (steps flow) k = Some ?st"
    using dist m(3) by (simp add: st od dict_get_def st')
  have 2: "?msg \<in> set (problems_with_wf flow)" using pb m(4) sub by auto
  have 3: "map fst (items (steps flow)) = map fst sds" by (simp add: st od keys)
  from 1 2 3 show ?thesis by blast
qed

text \<open>
  The theorem C5 at the document with the steps \<^verbatim>\<open>B\<close> (file missing) and \<^verbatim>\<open>A\<close>: the
  step \<^verbatim>\<open>A\<close> after \<^verbatim>\<open>B\<close> is built and connected.
\<close>

theorem C5_witness:
  "Workflow_init no_files doc_B_A = Inr flow_B_A
   \<and> cwl_dict doc_B_A = CWLMap
        [(''cwlVersion'', Scalar (Str ''v1.0'')),
         (''class'', Scalar (Str ''Workflow'')),
         (''inputs'', CWLMap decl_x 2 3),
         (''outputs'', CWLMap [] 4 4),
         (''steps'', CWLMap [(''B'', step_B),
                            (''A'', step_A decl_in1 decl_out1 (Scalar (Str ''x'')))] 5 13)] 0 13
   \<and> step_B = CWLMap [(''run'', Scalar (Str ''missing.cwl'')), (''in'', CWLMap [] 7 7)] 5 7
   \<and> read_cwl no_files (path doc_B_A) ''missing.cwl'' = FileNotFoundError
   \<and> dict_get (steps flow_B_A) ''B''
       = Some \<lparr>line_Step = (5, 7), id_Step = ''B'',
               available_sinks = OrderedDict [], available_sources = OrderedDict []\<rparr>
   \<and> ''Could not find sub workflow: missing.cwl (resolved to file:///wf/missing.cwl)''
       \<in> set (problems_with_wf flow_B_A)
   \<and> map fst (items (steps flow_B_A)) = [''B'', ''A'']
   \<and> connections flow_B_A = [conn_x_in1]"
proof -
  let ?sds = "[(''B'', step_B), (''A'', step_A decl_in1 decl_out1 (Scalar (Str ''x'')))]"
  let ?m = "[(''cwlVersion'', Scalar (Str ''v1.0'')),
         (''class'', Scalar (Str ''Workflow'')),
         (''inputs'', CWLMap decl_x 2 3),
         (''outputs'', CWLMap [] 4 4),
         (''steps'', CWLMap ?sds 5 13)]"
  let ?sm = "[(''run'', Scalar (Str ''missing.cwl'')), (''in'', CWLMap [] 7 7)]"
  have b: "Workflow_init no_files doc_B_A = Inr flow_B_A" by (rule build_B_A)
  have d: "cwl_dict doc_B_A = CWLMap ?m 0 13" by (simp add: doc_B_A_def)
  have s: "map_of ?m ''steps'' = Some (CWLMap ?sds 5 13)" by simp
  have di: "distinct (map fst ?sds)" by simp
  have B: "step_B = CWLMap ?sm 5 7" by (simp add: step_B_def)
  have mem: "(''B'', CWLMap ?sm 5 7) \<in> set ?sds" by (simp add: step_B_def)
  have r: "map_of ?sm ''run'' = Some (Scalar (Str ''missing.cwl''))" by simp
  have f: "read_cwl no_files (path doc_B_A) ''missing.cwl'' = FileNotFoundError"
    by (simp add: no_files_def)
  from C5_missing_sub_workflow [OF b d s di mem r f] b d B f show ?thesis
    by (simp add: no_files_def doc_B_A_def flow_B_A_def)
qed

text \<open>
  C6. Each reference of a sequence-valued \<^verbatim>\<open>source\<close> is one attempt: when the loop over
  the references returns, it has appended one connection to the sink or one diagnostic for
  every listed reference. In particular the binding \<^verbatim>\<open>in1: {source: [x, A/out1]}\<close>, with
  \<^verbatim>\<open>x\<close> a declared input and \<^verbatim>\<open>out1\<close> a declared output of the sub-process of
  \<^verbatim>\<open>A\<close>, yields exactly two connections, with the same destination.
\<close>

theorem C6_sequence_of_sources:
  "(connect_sources self sink label (iter_scalar_or_list (CWLList refs s e)) (conns, probs)
       = Inr (conns', probs')
     \<longrightarrow> (\<exists>cs ds. conns' = conns @ cs \<and> probs' = probs @ ds
            \<and> length cs + length ds = length refs \<and> list_all (\<lambda>c. dst c = sink) cs))
   \<and> (wf_ports ins = Inr ps \<and> ''x'' \<in> fst ` set ins \<and> ''in1'' \<in> fst ` set sub_ins
        \<and> ''out1'' \<in> fst ` set sub_outs
     \<longrightarrow> (\<exists>flow c1 c2.
            Workflow_init w (doc_A ins sub_ins sub_outs
              (CWLList [Scalar (Str ''x''), Scalar (Str ''A/out1'')] s e)) = Inr flow
            \<and> connections flow = [c1, c2] \<and> dst c1 = dst c2
            \<and> Port_eq (src c1) \<lparr>node_id = None, port_id = ''x'', line_Port = None\<rparr>
            \<and> Port_eq (src c2) \<lparr>node_id = Some ''A'', port_id = ''out1'', line_Port = None\<rparr>
            \<and> Port_eq (dst c1) \<lparr>node_id = Some ''A'', port_id = ''in1'', line_Port = None\<rparr>))"
proof (intro conjI impI)
  assume "connect_sources self sink label (iter_scalar_or_list (CWLList refs s e)) (conns, probs)
            = Inr (conns', probs')"
  then have "connect_sources self sink label refs (conns, probs) = Inr (conns', probs')" by simp
  then show "\<exists>cs ds. conns' = conns @ cs \<and> probs' = probs @ ds
            \<and> length cs + length ds = length refs \<and> list_all (\<lambda>c. dst c = sink) cs"
    by (rule connect_sources_count)
next
  assume a: "wf_ports ins = Inr ps \<and> ''x'' \<in> fst ` set ins \<and> ''in1'' \<in> fst ` set sub_ins
        \<and> ''out1'' \<in> fst ` set sub_outs"
  then have ps: "wf_ports ins = Inr ps" and xin: "''x'' \<in> fst ` set ins" by simp_all
  from dict_get_wf_ports(1) [OF ps xin] obtain ln where
    x: "dict_get (od_of ps) ''x'' = Some \<lparr>node_id = None, port_id = ''x'', line_Port = Some ln\<rparr>"
    by blast
  show "\<exists>flow c1 c2.
            Workflow_init w (doc_A ins sub_ins sub_outs
              (CWLList [Scalar (Str ''x''), Scalar (Str ''A/out1'')] s e)) = Inr flow
            \<and> connections flow = [c1, c2] \<and> dst c1 = dst c2
            \<and> Port_eq (src c1) \<lparr>node_id = None, port_id = ''x'', line_Port = None\<rparr>
            \<and> Port_eq (src c2) \<lparr>node_id = Some ''A'', port_id = ''out1'', line_Port = None\<rparr>
            \<and> Port_eq (dst c1) \<lparr>node_id = Some ''A'', port_id = ''in1'', line_Port = None\<rparr>"
    using a x by (simp add: doc_A_eval Port_eq_def)
qed

text \<open>
  The theorem C6 at the references \<^verbatim>\<open>[x, A/out1]\<close> and the example document.
\<close>

theorem C6_witness:
  "connect_sources
       (flow_A (CWLList [Scalar (Str ''x''), Scalar (Str ''A/out1'')] 13 13) [] [])
       port_in1 ''A.in1''
       (iter_scalar_or_list (CWLList [Scalar (Str ''x''), Scalar (Str ''A/out1'')] 13 13))
       ([], [])
     = Inr ([conn_x_in1, conn_out1_in1], [])
   \<and> (\<exists>cs ds. [conn_x_in1, conn_out1_in1] = [] @ cs \<and> ([] :: string list) = [] @ ds
          \<and> length cs + length ds = length [Scalar (Str ''x''), Scalar (Str ''A/out1'')]
          \<and> list_all (\<lambda>c. dst c = port_in1) cs)
   \<and> wf_ports decl_x = Inr [(''x'', port_x)]
   \<and> ''x'' \<in> fst ` set decl_x \<and> ''in1'' \<in> fst ` set decl_in1
   \<and> ''out1'' \<in> fst ` set decl_out1
   \<and> (\<exists>flow c1 c2.
          Workflow_init no_files (doc_A decl_x decl_in1 decl_out1
            (CWLList [Scalar (Str ''x''), Scalar (Str ''A/out1'')] 13 13)) = Inr flow
          \<and> connections flow = [c1, c2] \<and> dst c1 = dst c2
          \<and> Port_eq (src c1) \<lparr>node_id = None, port_id = ''x'', line_Port = None\<rparr>
          \<and> Port_eq (src c2) \<lparr>node_id = Some ''A'', port_id = ''out1'', line_Port = None\<rparr>
          \<and> Port_eq (dst c1) \<lparr>node_id = Some ''A'', port_id = ''in1'', line_Port = None\<rparr>)"
proof -
  let ?refs = "[Scalar (Str ''x''), Scalar (Str ''A/out1'')]"
  let ?src = "CWLList ?refs 13 13"
  have h1: "connect_sources (flow_A ?src [] []) port_in1 ''A.in1'' (iter_scalar_or_list ?src)
              ([], []) = Inr ([conn_x_in1, conn_out1_in1], [])"
    by (simp add: flow_defs get_source_def get_step_source_def dict_get_def)
  have h2: "wf_ports decl_x = Inr [(''x'', port_x)] \<and> ''x'' \<in> fst ` set decl_x
              \<and> ''in1'' \<in> fst ` set decl_in1 \<and> ''out1'' \<in> fst ` set decl_out1"
    by (simp add: decl_x_def decl_in1_def decl_out1_def port_x_def)
  note t = C6_sequence_of_sources
    [where self = "flow_A ?src [] []" and sink = port_in1 and label = "''A.in1''"
       and refs = ?refs and s = 13 and e = 13 and conns = "[]" and probs = "[]"
       and conns' = "[conn_x_in1, conn_out1_in1]" and probs' = "[]"
       and ins = decl_x and ps = "[(''x'', port_x)]" and sub_ins = decl_in1
       and sub_outs = decl_out1 and w = no_files]
  from t h1 h2 show ?thesis by blast
qed

text \<open>
  C7. In a workflow built from a mapping, the diagnostic \<^verbatim>\<open>'sec' missing\<close> of a required
  section occurs exactly once in the problem list when the section is missing and not at
  all when it is present; the check of the required sections never fails on a mapping,
  and even the mapping with no section at all builds, with the five diagnostics.
\<close>

theorem C7_missing_sections:
  assumes "Workflow_init w doc = Inr flow"
    and "cwl_dict doc = CWLMap m s e"
    and "sec \<in> set required_sections"
  shows "count_list (problems_with_wf flow) (missing_msg sec)
           = (if sec \<in> fst ` set m then 0 else 1)
       \<and> check_required (cwl_dict doc) required_sections []
           = Inr (map missing_msg (filter (\<lambda>sec. sec \<notin> fst ` set m) required_sections))
       \<and> (\<exists>flow'. Workflow_init w \<lparr>cwl_dict = CWLMap [] s e, path = path doc\<rparr> = Inr flow'
             \<and> problems_with_wf flow' = map missing_msg required_sections)"
proof -
  let ?p0 = "map missing_msg (filter (\<lambda>sec. sec \<notin> fst ` set m) required_sections)"
  have cr: "check_required (cwl_dict doc) required_sections [] = Inr ?p0"
    by (simp add: assms(2) check_required_map)
  from built_invariant [OF assms(1)] cr obtain extra where
    ps: "problems_with_wf flow = ?p0 @ extra" and ex: "list_all diag extra" by auto
  have d: "distinct required_sections" by (simp add: required_sections_def)
  have "count_list extra (missing_msg sec) = 0"
    using ex not_diag_missing_msg [OF assms(3)] by (rule count_list_diag)
  then have "count_list (problems_with_wf flow) (missing_msg sec)
               = (if sec \<in> fst ` set m then 0 else 1)"
    using assms(3) by (simp add: ps count_list_missing [OF d])
  with cr show ?thesis by (simp add: build_empty_mapping)
qed

text \<open>
  The theorem C7 at a document that lacks exactly \<^verbatim>\<open>outputs\<close>: the problem list is the
  single entry \<^verbatim>\<open>'outputs' missing\<close>.
\<close>

theorem C7_witness:
  "Workflow_init no_files doc_no_outputs = Inr flow_no_outputs
   \<and> cwl_dict doc_no_outputs = CWLMap
        [(''cwlVersion'', Scalar (Str ''v1.0'')),
         (''class'', Scalar (Str ''Workflow'')),
         (''inputs'', CWLMap decl_x 2 3),
         (''steps'', CWLMap [] 4 4)] 0 4
   \<and> ''outputs'' \<in> set required_sections
   \<and> missing_msg ''outputs'' = CHR 0x27 # ''outputs' missing''
   \<and> problems_with_wf flow_no_outputs = [missing_msg ''outputs'']
   \<and> count_list (problems_with_wf flow_no_outputs) (missing_msg ''outputs'') = 1"
proof -
  have b: "Workflow_init no_files doc_no_outputs = Inr flow_no_outputs" by (rule build_no_outputs)
  have d: "cwl_dict doc_no_outputs = CWLMap
        [(''cwlVersion'', Scalar (Str ''v1.0'')),
         (''class'', Scalar (Str ''Workflow'')),
         (''inputs'', CWLMap decl_x 2 3),
         (''steps'', CWLMap [] 4 4)] 0 4" by (simp add: doc_no_outputs_def)
  have r: "''outputs'' \<in> set required_sections" by (simp add: required_sections_def)
  from C7_missing_sections [OF b d r]
  have "count_list (problems_with_wf flow_no_outputs) (missing_msg ''outputs'') = 1" by simp
  with b d r show ?thesis by (simp add: missing_msg_def flow_no_outputs_def)
qed

text \<open>
  C8, as amended. In a built workflow, for a stored connection \<open>c\<close> and a candidate whose
  \<^verbatim>\<open>src\<close> and \<^verbatim>\<open>dst\<close> are equal (as ports: same \<^verbatim>\<open>node_id\<close> and \<^verbatim>\<open>port_id\<close>) to those
  of \<open>c\<close>, whatever the line of the candidate, \<^verbatim>\<open>find_connection\<close> returns the line stored
  in \<open>c\<close>; that line is \<^verbatim>\<open>None\<close> exactly when the source of \<open>c\<close> is a port of a step.
\<close>

theorem C8_find_connection_same_endpoints:
  assumes "Workflow_init w doc = Inr flow"
    and "c \<in> set (connections flow)"
    and "Port_eq (src cand) (src c)" and "Port_eq (dst cand) (dst c)"
  shows "find_connection flow cand = line_Connection c
       \<and> (line_Connection c = None) = (node_id (src c) \<noteq> None)"
proof -
  from built_invariant [OF assms(1)] have "list_all (conn_ok flow) (connections flow)" by blast
  with assms(2) have "conn_ok flow c" by (simp add: list_all_iff)
  then have "(line_Connection c = None) = (node_id (src c) \<noteq> None)"
    using is_source_line [of flow "src c"] by (simp add: conn_ok_def)
  with built_find_line [OF assms] show ?thesis by (simp add: find_connection_def)
qed

text \<open>
  The theorem C8 at the connection from the workflow input \<^verbatim>\<open>x\<close>: the candidate carries
  another line, and the stored line is returned.
\<close>

theorem C8_witness:
  "Workflow_init no_files (doc_A decl_x decl_in1 decl_out1 (Scalar (Str ''x'')))
     = Inr (flow_A (Scalar (Str ''x'')) [conn_x_in1] [])
   \<and> conn_x_in1 \<in> set (connections (flow_A (Scalar (Str ''x'')) [conn_x_in1] []))
   \<and> find_connection (flow_A (Scalar (Str ''x'')) [conn_x_in1] [])
        (conn_x_in1\<lparr>line_Connection := Some (100, 200)\<rparr>) = Some (3, 3)"
proof -
  let ?flow = "flow_A (Scalar (Str ''x'')) [conn_x_in1] []"
  have b: "Workflow_init no_files (doc_A decl_x decl_in1 decl_out1 (Scalar (Str ''x''))) = Inr ?flow"
    by (rule build_source_x)
  have m: "conn_x_in1 \<in> set (connections ?flow)" by (simp add: flow_A_def)
  have "find_connection ?flow (conn_x_in1\<lparr>line_Connection := Some (100, 200)\<rparr>)
          = line_Connection conn_x_in1"
    using C8_find_connection_same_endpoints [OF b m, of "conn_x_in1\<lparr>line_Connection := Some (100, 200)\<rparr>"]
    by (simp add: Port_eq_def)
  with b m show ?thesis by (simp add: conn_x_in1_def)
qed

text \<open>
  The claim C8 as stated (the result is not nothing) fails for the connection from the
  step source \<^verbatim>\<open>A/out1\<close>: the connection is stored, and the result is \<^verbatim>\<open>None\<close>.
\<close>

theorem C8_counterexample:
  "Workflow_init no_files (doc_A decl_x decl_in1 decl_out1 (Scalar (Str ''A/out1'')))
     = Inr (flow_A (Scalar (Str ''A/out1'')) [conn_out1_in1] [])
   \<and> conn_out1_in1 \<in> set (connections (flow_A (Scalar (Str ''A/out1'')) [conn_out1_in1] []))
   \<and> find_connection (flow_A (Scalar (Str ''A/out1'')) [conn_out1_in1] [])
        (conn_out1_in1\<lparr>line_Connection := Some (13, 13)\<rparr>) = None"
  by (simp add: build_source_out1)
     (simp add: flow_defs find_connection_def Connection_eq_def Port_eq_def)




text \<open>
  C10. In a built workflow every port among the sinks and sources of a step has no line;
  the line of every connection is the line of its source port; and a connection whose
  source is a port of a step has no line, so that \<^verbatim>\<open>find_connection\<close> returns \<^verbatim>\<open>None\<close>
  for it although it is in the list.
\<close>

theorem C10_step_ports_carry_no_line:
  assumes "Workflow_init w doc = Inr flow"
  shows "(\<forall>(k, st) \<in> set (items (steps flow)).
            \<forall>(pk, p) \<in> set (items (available_sinks st)) \<union> set (items (available_sources st)).
              line_Port p = None)
       \<and> (\<forall>c \<in> set (connections flow).
            line_Connection c = line_Port (src c)
            \<and> (node_id (src c) \<noteq> None \<longrightarrow>
                 line_Connection c = None \<and> find_connection flow c = None))"
proof -
  from built_invariant [OF assms] have ok: "ports_ok flow"
    and oks: "list_all (conn_ok flow) (connections flow)" by blast+
  have 1: "\<forall>(k, st) \<in> set (items (steps flow)).
            \<forall>(pk, p) \<in> set (items (available_sinks st)) \<union> set (items (available_sources st)).
              line_Port p = None"
    using built_step_ports [OF ok] by blast
  have 2: "line_Connection c = line_Port (src c)
            \<and> (node_id (src c) \<noteq> None \<longrightarrow>
                 line_Connection c = None \<and> find_connection flow c = None)"
    if c: "c \<in> set (connections flow)" for c
  proof -
    from oks c have cok: "conn_ok flow c" by (simp add: list_all_iff)
    have "Port_eq (src c) (src c)" "Port_eq (dst c) (dst c)" by (simp_all add: Port_eq_def)
    from built_find_line [OF assms c this]
    have "find_connection flow c = line_Connection c" by (simp add: find_connection_def)
    moreover from cok have "is_source flow (src c)" by (simp add: conn_ok_def)
    then have "(line_Port (src c) = None) = (node_id (src c) \<noteq> None)"
      by (rule is_source_line)
    ultimately show ?thesis using cok by (simp add: conn_ok_def)
  qed
  from 1 2 show ?thesis by blast
qed

text \<open>
  The theorem C10 at the connection from the step source \<^verbatim>\<open>A/out1\<close>.
\<close>

theorem C10_witness:
  "Workflow_init no_files (doc_A decl_x decl_in1 decl_out1 (Scalar (Str ''A/out1'')))
     = Inr (flow_A (Scalar (Str ''A/out1'')) [conn_out1_in1] [])
   \<and> conn_out1_in1 \<in> set (connections (flow_A (Scalar (Str ''A/out1'')) [conn_out1_in1] []))
   \<and> node_id (src conn_out1_in1) \<noteq> None
   \<and> line_Connection conn_out1_in1 = None
   \<and> find_connection (flow_A (Scalar (Str ''A/out1'')) [conn_out1_in1] []) conn_out1_in1 = None"
proof -
  let ?flow = "flow_A (Scalar (Str ''A/out1'')) [conn_out1_in1] []"
  have b: "Workflow_init no_files (doc_A decl_x decl_in1 decl_out1 (Scalar (Str ''A/out1'')))
             = Inr ?flow"
    by (rule build_source_out1)
  have m: "conn_out1_in1 \<in> set (connections ?flow)" by (simp add: flow_A_def)
  have n: "node_id (src conn_out1_in1) \<noteq> None" by (simp add: conn_out1_in1_def port_out1_def)
  from C10_step_ports_carry_no_line [OF b] m n
  have "line_Connection conn_out1_in1 = None \<and> find_connection ?flow conn_out1_in1 = None"
    by blast
  with b m n show ?thesis by simp
qed

end
